theory Spec2Isabelle
  imports Main "HOL-Library.Sublist"
begin

section \<open>Provider requests, task events and errors\<close>

text \<open>
  The capability \<open>StopFargateEcsServicesTrick\<close> talks to two AWS SDK clients
  (\<open>AWS.ECS\<close> and \<open>AWS.ApplicationAutoScaling\<close>). A request is one SDK operation with the
  parameters the source passes. Constant parameters of the source
  (\<open>launchType: 'FARGATE'\<close>, \<open>ServiceNamespace: 'ecs'\<close> and
  \<open>ScalableDimension: 'ecs:service:DesiredCount'\<close> of the describe call) are left out.

  \<^item> \<open>ListClusters\<close>: \<open>ecsClient.listClusters({})\<close>
  \<^item> \<open>ListServices cluster\<close>: \<open>ecsClient.listServices({cluster, launchType})\<close>
  \<^item> \<open>DescribeServices services cluster\<close>: \<open>ecsClient.describeServices({services, cluster})\<close>
  \<^item> \<open>DescribeScalableTargets resourceId\<close>: \<open>aasClient.describeScalableTargets\<close>
  \<^item> \<open>UpdateService cluster service desiredCount\<close>: \<open>ecsClient.updateService\<close>
  \<^item> \<open>WaitForServicesStable cluster services\<close>: \<open>ecsClient.waitFor('servicesStable', ...)\<close>
  \<^item> \<open>RegisterScalableTarget namespace resourceId dimension min max\<close>:
    \<open>aasClient.registerScalableTarget\<close>
\<close>

datatype request =
    ListClusters
  | ListServices string
  | DescribeServices "string list" string
  | DescribeScalableTargets string
  | UpdateService string string int
  | WaitForServicesStable string "string list"
  | RegisterScalableTarget string string string int int

fun is_mutating :: "request \<Rightarrow> bool" where
  "is_mutating (UpdateService c s d) = True"
| "is_mutating (RegisterScalableTarget ns rid dim mn mx) = True"
| "is_mutating r = False"

fun is_discovery :: "request \<Rightarrow> bool" where
  "is_discovery ListClusters = True"
| "is_discovery (ListServices c) = True"
| "is_discovery (DescribeServices ss c) = True"
| "is_discovery (DescribeScalableTargets rid) = True"
| "is_discovery r = False"

text \<open>
  \<open>Rejected r\<close> is the rejection of the promise of request \<open>r\<close>; \<open>Error msg\<close> is a
  \<open>throw new Error(msg)\<close> of the source.
\<close>

datatype error = Rejected request | Error string

text \<open>
  What a task function does, in program order.

  \<^item> \<open>Sent r\<close>: \<open>await client.op(params).promise()\<close>. \<open>promise()\<close> sends the request, and
    the task continues when the provider has answered (it throws when the provider
    rejects).
  \<^item> \<open>Unsent r\<close>: \<open>await client.waitFor(state, params)\<close> with neither a callback nor
    \<open>.promise()\<close>. The SDK builds the \<open>AWS.Request\<close> object and returns it without
    sending it (a request is sent by \<open>send()\<close>, by \<open>promise()\<close> or by passing a
    callback); the object has no \<open>then\<close> method, so \<open>await\<close> continues at once with
    the object itself. Nothing reaches the provider and nothing can be thrown.
  \<^item> \<open>Skip msg\<close>: \<open>task.skip(msg)\<close>.
  \<^item> \<open>Output msg\<close>: \<open>task.output = msg\<close>. The message is a template literal, kept as
    its parts: the text, and the numbers put into it as they are, not printed.
\<close>

datatype part = Text string | Num int

datatype event = Sent request | Unsent request | Skip string | Output "part list"

fun sent_of :: "event \<Rightarrow> request list" where
  "sent_of (Sent r) = [r]"
| "sent_of e = []"

text \<open>The request that an event builds, sent or not.\<close>

fun built_of :: "event \<Rightarrow> request list" where
  "built_of (Sent r) = [r]"
| "built_of (Unsent r) = [r]"
| "built_of e = []"

fun is_skip :: "event \<Rightarrow> bool" where
  "is_skip (Skip m) = True"
| "is_skip e = False"

text \<open>The run of one task function: its events, and the error it threw, if any.\<close>

record task_run =
  trace :: "event list"
  failure :: "error option"

text \<open>The requests that a task sends to the provider, in program order.\<close>

definition sent_requests :: "task_run \<Rightarrow> request list" where
  "sent_requests r = concat (map sent_of (trace r))"

text \<open>The requests that a task builds, sent or not, in program order.\<close>

definition built_requests :: "task_run \<Rightarrow> request list" where
  "built_requests r = concat (map built_of (trace r))"

section \<open>The provider\<close>

text \<open>
  The replies of the SDK, as far as the source reads them. A promise is rejected or
  resolves with a response; a response field that may be \<open>undefined\<close> is an option.
\<close>

datatype 'a reply = Rejects | Resolves 'a

text \<open>\<open>AWS.ECS.Service\<close>, the fields the source reads.\<close>

record ecs_service =
  serviceArn :: "string option"
  clusterArn :: "string option"
  desiredCount :: "int option"

text \<open>\<open>AWS.ApplicationAutoScaling.ScalableTarget\<close>, the fields the source reads.\<close>

record aws_scalable_target =
  ResourceId :: string
  ScalableDimension :: string
  MinCapacity :: int
  MaxCapacity :: int

text \<open>
  \<open>accepts r\<close> tells whether the provider resolves the mutating request \<open>r\<close>; the other
  fields are the responses of the list and describe operations
  (\<open>clusterArns\<close>, \<open>serviceArns\<close>, \<open>services\<close>, \<open>ScalableTargets\<close>).
\<close>

record provider =
  listClusters_reply :: "string list option reply"
  listServices_reply :: "string \<Rightarrow> string list option reply"
  describeServices_reply :: "string list \<Rightarrow> string \<Rightarrow> ecs_service list option reply"
  describeScalableTargets_reply :: "string \<Rightarrow> aws_scalable_target list option reply"
  accepts :: "request \<Rightarrow> bool"

section \<open>The captured state\<close>

text \<open>
  \<open>EcsClusterState\<close> and \<open>EcsServiceState\<close> with the fields the source reads and writes.
  Both have a field \<open>arn\<close> in the source; here they are \<open>cluster_arn\<close> and
  \<open>service_arn\<close>. The fields \<open>min\<close> and \<open>max\<close> of a scalable target are \<open>min_cap\<close> and
  \<open>max_cap\<close>. \<open>scalableTargets\<close> may be absent from a State read back from storage
  (the source tests \<open>!serviceState.scalableTargets\<close>), so it is an option.
\<close>

record scalable_target_state =
  namespace :: string
  resourceId :: string
  scalableDimension :: string
  min_cap :: int
  max_cap :: int

record ecs_service_state =
  service_arn :: string
  desired :: int
  scalableTargets :: "scalable_target_state list option"

record ecs_cluster_state =
  cluster_arn :: string
  services :: "ecs_service_state list"

type_synonym StopFargateEcsServicesState = "ecs_cluster_state list"

section \<open>The task tree\<close>

text \<open>
  \<open>subListr.add({title, task: () => new Listr([...], options)})\<close> adds one node with its
  sub-tasks. A node holds the run of each sub-task function. With
  \<open>exitOnError: false\<close> and \<open>concurrent: true\<close> every sub-task is run, whatever the others
  do, so each run stands on its own; the order of the events of two different sub-tasks
  is not fixed and is not modelled. The colouring of the title by \<open>chalk\<close> is left out.
\<close>

record listr_task =
  task_title :: string
  run :: task_run

record node =
  title :: string
  subtasks :: "listr_task list"
  exitOnError :: bool
  concurrent :: bool
  collapse :: bool

type_synonym Listr = "node list"

definition node_requests :: "node \<Rightarrow> request list" where
  "node_requests n = concat (map (\<lambda>t. sent_requests (run t)) (subtasks n))"

definition listr_requests :: "Listr \<Rightarrow> request list" where
  "listr_requests l = concat (map node_requests l)"

section \<open>Strings\<close>

text \<open>\<open>String.prototype.split(sep)\<close> for a one-character separator.\<close>

fun split :: "char \<Rightarrow> string \<Rightarrow> string list" where
  "split sep [] = [[]]"
| "split sep (x # xs) =
     (if x = sep then [] # split sep xs
      else (case split sep xs of [] \<Rightarrow> [[x]] | y # ys \<Rightarrow> (x # y) # ys))"

text \<open>\<open>Array.prototype.pop\<close>: the last element, \<open>undefined\<close> on an empty array.\<close>

definition pop :: "'a list \<Rightarrow> 'a option" where
  "pop xs = (if xs = [] then None else Some (last xs))"

text \<open>A string or \<open>undefined\<close> inside a template literal.\<close>

fun interpolate :: "string option \<Rightarrow> string" where
  "interpolate None = ''undefined''"
| "interpolate (Some s) = s"

text \<open>\<open>_.chunk(array, size)\<close> of lodash.\<close>

function chunk :: "'a list \<Rightarrow> nat \<Rightarrow> 'a list list" where
  "chunk xs n = (if xs = [] \<or> n < 1 then [] else take n xs # chunk (drop n xs) n)"
  by pat_completeness auto
termination
  by (relation "measure (\<lambda>(xs, n). length xs)") auto

declare chunk.simps [simp del]

section \<open>StopFargateEcsServicesTrick\<close>

text \<open>
  The source's parameters \<open>clusterArn\<close> and \<open>serviceArn\<close> are written \<open>clusterArn'\<close> and
  \<open>serviceArn'\<close>, the plain names being the fields of \<open>AWS.ECS.Service\<close>.
\<close>

definition machineName :: string where
  "machineName = ''stop-fargate-ecs-services''"

definition getEcsServiceResourceId :: "string \<Rightarrow> string \<Rightarrow> string" where
  "getEcsServiceResourceId clusterArn' serviceArn' =
     (let clusterName = pop (split CHR ''/'' clusterArn');
          serviceName = pop (split CHR ''/'' serviceArn')
      in ''service/'' @ interpolate clusterName @ ''/'' @ interpolate serviceName)"

subsection \<open>Discovery\<close>

text \<open>\<open>x || []\<close> on a response field: an array, also an empty one, is truthy.\<close>

fun or_empty :: "'a list option \<Rightarrow> 'a list" where
  "or_empty None = []"
| "or_empty (Some xs) = xs"

definition listClusters :: "provider \<Rightarrow> error + string list" where
  "listClusters p =
     (case listClusters_reply p of
        Rejects \<Rightarrow> Inl (Rejected ListClusters)
      | Resolves r \<Rightarrow> Inr (or_empty r))"

definition listServices :: "provider \<Rightarrow> string \<Rightarrow> error + string list" where
  "listServices p clusterArn' =
     (case listServices_reply p clusterArn' of
        Rejects \<Rightarrow> Inl (Rejected (ListServices clusterArn'))
      | Resolves r \<Rightarrow> Inr (or_empty r))"

text \<open>The \<open>for\<close> loop of \<open>describeAllServices\<close> over the chunks, \<open>result\<close> being built up.\<close>

fun describeChunks :: "provider \<Rightarrow> string \<Rightarrow> string list list \<Rightarrow> ecs_service list
    \<Rightarrow> error + ecs_service list" where
  "describeChunks p clusterArn' [] result = Inr result"
| "describeChunks p clusterArn' (ss # chunks) result =
     (case describeServices_reply p ss clusterArn' of
        Rejects \<Rightarrow> Inl (Rejected (DescribeServices ss clusterArn'))
      | Resolves r \<Rightarrow> describeChunks p clusterArn' chunks (result @ or_empty r))"

definition describeAllServices :: "provider \<Rightarrow> string \<Rightarrow> error + ecs_service list" where
  "describeAllServices p clusterArn' =
     (case listServices p clusterArn' of
        Inl e \<Rightarrow> Inl e
      | Inr servicesArn \<Rightarrow> describeChunks p clusterArn' (chunk servicesArn 10) [])"

text \<open>\<open>!x\<close> on a string that may be \<open>undefined\<close>: true when undefined or empty.\<close>

fun falsy :: "string option \<Rightarrow> bool" where
  "falsy None = True"
| "falsy (Some s) = (s = [])"

text \<open>
  A rejected promise: the moment of its rejection, and its possible reasons.

  \<^item> \<open>AtOnce\<close>: the async function threw before its first \<open>await\<close>; its promise is
    rejected already when the function returns it.
  \<^item> \<open>NextTick\<close>: the function awaited a call that threw before its own first
    \<open>await\<close>; its promise is rejected in a microtask, with no answer of the provider
    in between.
  \<^item> \<open>AfterIO\<close>: the rejection follows an answer of the provider.

  There is one reason, unless the reason is that of the first of several answers of the
  provider, whose order the program does not fix: then the reasons are all those that
  can come first.
\<close>

datatype moment = AtOnce | NextTick | AfterIO

type_synonym rejection = "moment \<times> error list"

text \<open>The moment at which \<open>await\<close> of a rejected promise throws.\<close>

fun awaited :: "moment \<Rightarrow> moment" where
  "awaited AtOnce = NextTick"
| "awaited m = m"

text \<open>\<open>${service}\<close> of an object in a template literal is \<open>[object Object]\<close>.\<close>

definition describeAllScalableTargets :: "provider \<Rightarrow> ecs_service
    \<Rightarrow> rejection + aws_scalable_target list" where
  "describeAllScalableTargets p service =
     (if falsy (clusterArn service) then
        Inl (AtOnce,
             [Error ''Unexpected missing clusterArn for ECS service: [object Object]''])
      else if falsy (serviceArn service) then
        Inl (AtOnce,
             [Error ''Unexpected missing serviceArn for ECS service: [object Object]''])
      else
        (let rid = getEcsServiceResourceId (interpolate (clusterArn service))
                     (interpolate (serviceArn service))
         in case describeScalableTargets_reply p rid of
              Rejects \<Rightarrow> Inl (AfterIO, [Rejected (DescribeScalableTargets rid)])
            | Resolves r \<Rightarrow> Inr (or_empty r)))"

definition target_state :: "aws_scalable_target \<Rightarrow> scalable_target_state" where
  "target_state st =
     \<lparr>namespace = ''ecs'', resourceId = ResourceId st,
      scalableDimension = ScalableDimension st,
      min_cap = MinCapacity st, max_cap = MaxCapacity st\<rparr>"

text \<open>
  The inner \<open>async (service) => ...\<close> of \<open>getCurrentState\<close>. The two tests of
  \<open>undefined\<close> come before the first \<open>await\<close>.
\<close>

definition service_state :: "provider \<Rightarrow> ecs_service \<Rightarrow> rejection + ecs_service_state" where
  "service_state p service =
     (case serviceArn service of
        None \<Rightarrow>
          Inl (AtOnce, [Error ''Unexpected error: serviceArn is missing for ECS service''])
      | Some sa \<Rightarrow>
          (case desiredCount service of
             None \<Rightarrow>
               Inl (AtOnce,
                    [Error ''Unexpected error: desiredCount is missing for ECS service''])
           | Some d \<Rightarrow>
               (case describeAllScalableTargets p service of
                  Inl (m, es) \<Rightarrow> Inl (awaited m, es)
                | Inr sts \<Rightarrow>
                    Inr \<lparr>service_arn = sa, desired = d,
                         scalableTargets = Some (map target_state sts)\<rparr>)))"

text \<open>The rejections and the values of an array of settled promises, in its order.\<close>

fun rejections :: "('e + 'b) list \<Rightarrow> 'e list" where
  "rejections [] = []"
| "rejections (Inl e # rs) = e # rejections rs"
| "rejections (Inr y # rs) = rejections rs"

fun fulfilled :: "('e + 'b) list \<Rightarrow> 'b list" where
  "fulfilled [] = []"
| "fulfilled (Inl e # rs) = fulfilled rs"
| "fulfilled (Inr y # rs) = y # fulfilled rs"

text \<open>
  \<open>Promise.all(promises)\<close>: the array of the values when every promise is fulfilled, and
  otherwise the rejection that comes first in time. The reactions of \<open>Promise.all\<close> to
  promises rejected at once are queued when it subscribes, in the order of the array,
  before any promise rejected in a later microtask can react; both come before any
  answer of the provider. So the leftmost promise rejected at once wins; when there is
  none, the leftmost one rejected in the next tick; when there is none either, any of
  the promises rejected after an answer of the provider can be the first.
\<close>

definition promise_all :: "(rejection + 'b) list \<Rightarrow> rejection + 'b list" where
  "promise_all promises =
     (let rs = rejections promises
      in if rs = [] then Inr (fulfilled promises)
         else (case find (\<lambda>r. fst r = AtOnce) rs of
                 Some r \<Rightarrow> Inl r
               | None \<Rightarrow>
                   (case find (\<lambda>r. fst r = NextTick) rs of
                      Some r \<Rightarrow> Inl r
                    | None \<Rightarrow> Inl (AfterIO, concat (map snd rs)))))"

text \<open>
  The outer \<open>async (clusterArn) => ...\<close> of \<open>getCurrentState\<close>. It awaits answers of the
  provider first, so whatever rejects it does so after them.
\<close>

definition cluster_state :: "provider \<Rightarrow> string \<Rightarrow> rejection + ecs_cluster_state" where
  "cluster_state p clusterArn' =
     (case describeAllServices p clusterArn' of
        Inl e \<Rightarrow> Inl (AfterIO, [e])
      | Inr svcs \<Rightarrow>
          (case promise_all (map (service_state p) svcs) of
             Inl (m, es) \<Rightarrow> Inl (AfterIO, es)
           | Inr ss \<Rightarrow> Inr \<lparr>cluster_arn = clusterArn', services = ss\<rparr>))"

definition getCurrentState :: "provider \<Rightarrow> string list
    \<Rightarrow> rejection + StopFargateEcsServicesState" where
  "getCurrentState p clustersArn = promise_all (map (cluster_state p) clustersArn)"

subsection \<open>The task functions\<close>

definition conserveService :: "provider \<Rightarrow> bool \<Rightarrow> ecs_cluster_state \<Rightarrow> ecs_service_state
    \<Rightarrow> task_run" where
  "conserveService p dryRun clusterState serviceState =
     (if dryRun then \<lparr>trace = [Skip ''Skipped due to dry-run''], failure = None\<rparr>
      else if desired serviceState > 0 then
        (let update = UpdateService (cluster_arn clusterState) (service_arn serviceState) 0;
             wait = WaitForServicesStable (cluster_arn clusterState) [service_arn serviceState]
         in if accepts p update then
              \<lparr>trace = [Output [Text ''Updating desired count to zero...''], Sent update,
                        Output [Text ''Waiting for service to scale down to zero...''],
                        Unsent wait,
                        Output [Text ''Set desired count to zero'']],
               failure = None\<rparr>
            else
              \<lparr>trace = [Output [Text ''Updating desired count to zero...''], Sent update],
               failure = Some (Rejected update)\<rparr>)
      else \<lparr>trace = [Skip ''Skipped, desired count is already zero''], failure = None\<rparr>)"

text \<open>\<open>!serviceState.scalableTargets || serviceState.scalableTargets.length === 0\<close>\<close>

fun no_targets :: "scalable_target_state list option \<Rightarrow> bool" where
  "no_targets None = True"
| "no_targets (Some sts) = (length sts = 0)"

text \<open>The \<open>for\<close> loop of \<open>conserveScalableTargets\<close>; a rejected request ends it.\<close>

fun conserveTargetsLoop :: "provider \<Rightarrow> ecs_cluster_state \<Rightarrow> ecs_service_state
    \<Rightarrow> scalable_target_state list \<Rightarrow> task_run" where
  "conserveTargetsLoop p clusterState serviceState [] = \<lparr>trace = [], failure = None\<rparr>"
| "conserveTargetsLoop p clusterState serviceState (scalableTarget # rest) =
     (let rid = getEcsServiceResourceId (cluster_arn clusterState) (service_arn serviceState);
          register = RegisterScalableTarget (namespace scalableTarget) rid
                       (scalableDimension scalableTarget) 0 0
      in if accepts p register then
           (let r = conserveTargetsLoop p clusterState serviceState rest
            in r\<lparr>trace := Sent register # trace r\<rparr>)
         else \<lparr>trace = [Sent register], failure = Some (Rejected register)\<rparr>)"

definition conserveScalableTargets :: "provider \<Rightarrow> bool \<Rightarrow> ecs_cluster_state
    \<Rightarrow> ecs_service_state \<Rightarrow> task_run" where
  "conserveScalableTargets p dryRun clusterState serviceState =
     (if no_targets (scalableTargets serviceState) then
        \<lparr>trace = [Skip ''No scalable targets defined''], failure = None\<rparr>
      else if dryRun then \<lparr>trace = [Skip ''Skipped due to dry-run''], failure = None\<rparr>
      else conserveTargetsLoop p clusterState serviceState
             (or_empty (scalableTargets serviceState)))"

definition restoreService :: "provider \<Rightarrow> bool \<Rightarrow> ecs_cluster_state \<Rightarrow> ecs_service_state
    \<Rightarrow> task_run" where
  "restoreService p dryRun clusterState serviceState =
     (if dryRun then \<lparr>trace = [Skip ''Skipped due to dry-run''], failure = None\<rparr>
      else if desired serviceState > 0 then
        (let update = UpdateService (cluster_arn clusterState) (service_arn serviceState)
                        (desired serviceState);
             wait = WaitForServicesStable (cluster_arn clusterState) [service_arn serviceState];
             d = Num (desired serviceState)
         in if accepts p update then
              \<lparr>trace = [Output [Text ''Updating desired count to '', d, Text ''...''],
                        Sent update,
                        Output [Text ''Waiting for service to reach '', d,
                                Text '' desired tasks...''],
                        Unsent wait,
                        Output [Text ''Restored desired count to '', d]],
               failure = None\<rparr>
            else
              \<lparr>trace = [Output [Text ''Updating desired count to '', d, Text ''...''],
                        Sent update],
               failure = Some (Rejected update)\<rparr>)
      else \<lparr>trace = [Skip ''Skipped, desired count was previously zero''], failure = None\<rparr>)"

text \<open>
  The \<open>for\<close> loop of \<open>restoreScalableTargets\<close>: the test of \<open>dryRun\<close> is inside the loop,
  so a dry run skips once for every target.
\<close>

fun restoreTargetsLoop :: "provider \<Rightarrow> bool \<Rightarrow> ecs_cluster_state \<Rightarrow> ecs_service_state
    \<Rightarrow> scalable_target_state list \<Rightarrow> task_run" where
  "restoreTargetsLoop p dryRun clusterState serviceState [] = \<lparr>trace = [], failure = None\<rparr>"
| "restoreTargetsLoop p dryRun clusterState serviceState (scalableTarget # rest) =
     (let rid = getEcsServiceResourceId (cluster_arn clusterState) (service_arn serviceState);
          register = RegisterScalableTarget (namespace scalableTarget) rid
                       (scalableDimension scalableTarget)
                       (min_cap scalableTarget) (max_cap scalableTarget)
      in if dryRun then
           (let r = restoreTargetsLoop p dryRun clusterState serviceState rest
            in r\<lparr>trace := Skip ''Skipped due to dry-run'' # trace r\<rparr>)
         else if accepts p register then
           (let r = restoreTargetsLoop p dryRun clusterState serviceState rest
            in r\<lparr>trace := Sent register # trace r\<rparr>)
         else \<lparr>trace = [Sent register], failure = Some (Rejected register)\<rparr>)"

definition restoreScalableTargets :: "provider \<Rightarrow> bool \<Rightarrow> ecs_cluster_state
    \<Rightarrow> ecs_service_state \<Rightarrow> task_run" where
  "restoreScalableTargets p dryRun clusterState serviceState =
     (if no_targets (scalableTargets serviceState) then
        \<lparr>trace = [Skip ''No scalable targets defined''], failure = None\<rparr>
      else restoreTargetsLoop p dryRun clusterState serviceState
             (or_empty (scalableTargets serviceState)))"

subsection \<open>conserve and restore\<close>

text \<open>The object given to \<open>subListr.add\<close> for one service, in \<open>conserve\<close>.\<close>

definition conserve_node :: "provider \<Rightarrow> bool \<Rightarrow> ecs_cluster_state \<Rightarrow> ecs_service_state
    \<Rightarrow> node" where
  "conserve_node p dryRun cluster service =
     \<lparr>title = getEcsServiceResourceId (cluster_arn cluster) (service_arn service),
      subtasks =
        [\<lparr>task_title = ''Desired count'', run = conserveService p dryRun cluster service\<rparr>,
         \<lparr>task_title = ''Auto scaling'',
          run = conserveScalableTargets p dryRun cluster service\<rparr>],
      exitOnError = False, concurrent = True, collapse = False\<rparr>"

text \<open>The object given to \<open>subListr.add\<close> for one service, in \<open>restore\<close>.\<close>

definition restore_node :: "provider \<Rightarrow> bool \<Rightarrow> ecs_cluster_state \<Rightarrow> ecs_service_state
    \<Rightarrow> node" where
  "restore_node p dryRun cluster service =
     \<lparr>title = getEcsServiceResourceId (cluster_arn cluster) (service_arn service),
      subtasks =
        [\<lparr>task_title = ''Desired count'', run = restoreService p dryRun cluster service\<rparr>,
         \<lparr>task_title = ''Auto scaling'',
          run = restoreScalableTargets p dryRun cluster service\<rparr>],
      exitOnError = False, concurrent = True, collapse = True\<rparr>"

text \<open>The two nested \<open>for\<close> loops over the clusters and their services.\<close>

definition for_each_service :: "(ecs_cluster_state \<Rightarrow> ecs_service_state \<Rightarrow> node)
    \<Rightarrow> StopFargateEcsServicesState \<Rightarrow> Listr" where
  "for_each_service f st = concat (map (\<lambda>cluster. map (f cluster) (services cluster)) st)"

text \<open>
  \<open>conserve\<close> returns the State and has added its nodes to \<open>subListr\<close>; when discovery
  fails the promise of \<open>conserve\<close> is rejected, before any node is added. \<open>Inl es\<close> is
  that rejection: its reason is one of \<open>es\<close>, the one that comes first.
\<close>

definition conserve :: "provider \<Rightarrow> Listr \<Rightarrow> bool
    \<Rightarrow> error list + (StopFargateEcsServicesState \<times> Listr)" where
  "conserve p subListr dryRun =
     (case listClusters p of
        Inl e \<Rightarrow> Inl [e]
      | Inr clustersArn \<Rightarrow>
          (case getCurrentState p clustersArn of
             Inl (m, es) \<Rightarrow> Inl es
           | Inr currentState \<Rightarrow>
               Inr (currentState,
                    subListr @ for_each_service (conserve_node p dryRun) currentState)))"

text \<open>\<open>restore\<close> returns nothing; the result is \<open>subListr\<close> with the nodes added.\<close>

definition restore :: "provider \<Rightarrow> Listr \<Rightarrow> bool \<Rightarrow> StopFargateEcsServicesState \<Rightarrow> Listr" where
  "restore p subListr dryRun originalState =
     subListr @ for_each_service (restore_node p dryRun) originalState"

text \<open>
  \<open>TrickInterface.conserve(subListr, dryRun, tags)\<close> on this capability: the method of the
  class declares \<open>subListr\<close> and \<open>dryRun\<close> only, so the third argument of a call through
  the interface is dropped.
\<close>

definition TrickInterface_conserve :: "provider \<Rightarrow> Listr \<Rightarrow> bool \<Rightarrow> 'tag list
    \<Rightarrow> error list + (StopFargateEcsServicesState \<times> Listr)" where
  "TrickInterface_conserve p subListr dryRun tags = conserve p subListr dryRun"

section \<open>TrickRegistry\<close>

text \<open>The seven capability classes that \<open>initialize\<close> instantiates.\<close>

datatype trick =
    StopFargateEcsServicesTrick
  | StopRdsDatabaseInstancesTrick
  | ShutdownEC2InstancesTrick
  | DecreaseDynamoDBProvisionedRcuWcuTrick
  | RemoveNatGatewaysTrick
  | SnapshotRemoveElasticacheRedisTrick
  | DecreaseKinesisStreamsShardsTrick

record 'a TrickRegistry =
  registry :: "'a list"

definition new_TrickRegistry :: "'a TrickRegistry" where
  "new_TrickRegistry = \<lparr>registry = []\<rparr>"

definition register :: "'a TrickRegistry \<Rightarrow> 'a list \<Rightarrow> 'a TrickRegistry" where
  "register r trick = r\<lparr>registry := registry r @ trick\<rparr>"

definition all :: "'a TrickRegistry \<Rightarrow> 'a list" where
  "all r = registry r"

definition initialize :: "trick TrickRegistry" where
  "initialize =
     register new_TrickRegistry
       [StopFargateEcsServicesTrick, StopRdsDatabaseInstancesTrick,
        ShutdownEC2InstancesTrick, DecreaseDynamoDBProvisionedRcuWcuTrick,
        RemoveNatGatewaysTrick, SnapshotRemoveElasticacheRedisTrick,
        DecreaseKinesisStreamsShardsTrick]"

text \<open>
  Modelled from the spec: \<open>getMachineName\<close> of the six capability classes whose files are
  not part of the sources (every class of \<open>initialize\<close> but
  \<open>StopFargateEcsServicesTrick\<close>). The spec gives no names; it says that a capability
  is "identified by a unique machine name". The names of the six are the parameter
  \<open>others\<close>, and uniqueness is the injectivity of \<open>getMachineName others\<close>.
\<close>

definition getMachineName :: "(trick \<Rightarrow> string) \<Rightarrow> trick \<Rightarrow> string" where
  "getMachineName others t =
     (if t = StopFargateEcsServicesTrick then machineName else others t)"

section \<open>The claims in the spec's words\<close>

text \<open>
  The last \<open>/\<close>-separated segment of a string, as the spec words it: what follows the
  last \<open>/\<close>, the whole string when there is none.
\<close>

definition last_segment :: "string \<Rightarrow> string" where
  "last_segment s = rev (takeWhile (\<lambda>ch. ch \<noteq> CHR ''/'') (rev s))"

text \<open>The resource identifier that a scalable-target request carries.\<close>

fun target_resource :: "request \<Rightarrow> string option" where
  "target_resource (RegisterScalableTarget ns rid dim mn mx) = Some rid"
| "target_resource (DescribeScalableTargets rid) = Some rid"
| "target_resource r = None"

text \<open>A task run that reports skips, at least one, and does nothing else.\<close>

definition only_skips :: "task_run \<Rightarrow> bool" where
  "only_skips r = (trace r \<noteq> [] \<and> list_all is_skip (trace r) \<and> failure r = None)"

text \<open>
  The entries \<open>es\<close> of a State record the described services \<open>svcs\<close>: one entry for each
  service, in the same order, with its ARN and its desired count.
\<close>

definition records :: "ecs_service_state list \<Rightarrow> ecs_service list \<Rightarrow> bool" where
  "records es svcs =
     (map serviceArn svcs = map (\<lambda>e. Some (service_arn e)) es \<and>
      map desiredCount svcs = map (\<lambda>e. Some (desired e)) es)"

text \<open>
  The services in the answers of \<open>describeServices\<close> to the chunks of the listed ARNs
  \<open>arns\<close> of a cluster: the services that discovery describes.
\<close>

definition described :: "provider \<Rightarrow> string \<Rightarrow> string list \<Rightarrow> ecs_service list" where
  "described p c arns =
     concat (map (\<lambda>ss. case describeServices_reply p ss c of
                          Rejects \<Rightarrow> [] | Resolves r \<Rightarrow> or_empty r)
                 (chunk arns 10))"

text \<open>The two errors of a service described without a required field.\<close>

definition missing_field_errors :: "error list" where
  "missing_field_errors =
     [Error ''Unexpected error: serviceArn is missing for ECS service'',
      Error ''Unexpected error: desiredCount is missing for ECS service'']"

text \<open>
  The \<open>registerScalableTarget\<close> requests that a State entry asks of \<open>restore\<close>: one for
  each captured target, in order, with the captured minimum and maximum.
\<close>

definition restore_registers :: "ecs_cluster_state \<Rightarrow> ecs_service_state \<Rightarrow> request list" where
  "restore_registers cl sv =
     map (\<lambda>t. RegisterScalableTarget (namespace t)
                 (getEcsServiceResourceId (cluster_arn cl) (service_arn sv))
                 (scalableDimension t) (min_cap t) (max_cap t))
         (or_empty (scalableTargets sv))"

text \<open>The requests of a list up to the first that the provider rejects, that one included.\<close>

fun until_rejected :: "(request \<Rightarrow> bool) \<Rightarrow> request list \<Rightarrow> request list" where
  "until_rejected acc [] = []"
| "until_rejected acc (r # rs) = r # (if acc r then until_rejected acc rs else [])"

text \<open>The requests that the tasks of the nodes of a tree build, sent or not.\<close>

definition listr_built :: "Listr \<Rightarrow> request list" where
  "listr_built l =
     concat (map (\<lambda>n. concat (map (\<lambda>t. built_requests (run t)) (subtasks n))) l)"

text \<open>The requests that the sub-tasks of a node send, one list for each sub-task.\<close>

definition requests_by_task :: "node \<Rightarrow> request list list" where
  "requests_by_task n = map (\<lambda>t. sent_requests (run t)) (subtasks n)"

section \<open>Example inputs\<close>

definition cluster_main :: string where
  "cluster_main = ''arn:aws:ecs:eu-west-1:123456789012:cluster/main''"

definition service_web :: string where
  "service_web = ''arn:aws:ecs:eu-west-1:123456789012:service/main/web''"

definition service_api :: string where
  "service_api = ''arn:aws:ecs:eu-west-1:123456789012:service/main/api''"

text \<open>
  A provider with one cluster \<open>c\<close> and one service \<open>s\<close> on it, of desired count 3 and
  with one scalable target of minimum 1 and maximum 10; it accepts every request.
\<close>

definition scenario_provider :: "string \<Rightarrow> string \<Rightarrow> provider" where
  "scenario_provider c s =
     \<lparr>listClusters_reply = Resolves (Some [c]),
      listServices_reply = (\<lambda>cl. Resolves (if cl = c then Some [s] else None)),
      describeServices_reply = (\<lambda>ss cl. Resolves (Some
         (if cl = c \<and> ss = [s]
          then [\<lparr>serviceArn = Some s, clusterArn = Some c, desiredCount = Some 3\<rparr>]
          else []))),
      describeScalableTargets_reply = (\<lambda>rid. Resolves (Some
         (if rid = getEcsServiceResourceId c s
          then [\<lparr>ResourceId = rid, ScalableDimension = ''ecs:service:DesiredCount'',
                 MinCapacity = 1, MaxCapacity = 10\<rparr>]
          else []))),
      accepts = (\<lambda>r. True)\<rparr>"

definition env_ok :: provider where
  "env_ok = scenario_provider cluster_main service_web"

text \<open>The same provider when it rejects every mutating request.\<close>

definition env_down :: provider where
  "env_down = env_ok\<lparr>accepts := (\<lambda>r. False)\<rparr>"

text \<open>
  A provider with one cluster and two services on it; the description of the second
  service has no \<open>desiredCount\<close>.
\<close>

definition env_incomplete :: provider where
  "env_incomplete =
     \<lparr>listClusters_reply = Resolves (Some [cluster_main]),
      listServices_reply = (\<lambda>cl. Resolves (Some [service_web, service_api])),
      describeServices_reply = (\<lambda>ss cl. Resolves (Some
         [\<lparr>serviceArn = Some service_web, clusterArn = Some cluster_main,
           desiredCount = Some 3\<rparr>,
          \<lparr>serviceArn = Some service_api, clusterArn = Some cluster_main,
           desiredCount = None\<rparr>])),
      describeScalableTargets_reply = (\<lambda>rid. Resolves None),
      accepts = (\<lambda>r. True)\<rparr>"

text \<open>
  The same provider when it also rejects \<open>describeScalableTargets\<close>: the first service
  fails after an answer of the provider, the second at once.
\<close>

definition env_racing :: provider where
  "env_racing = env_incomplete\<lparr>describeScalableTargets_reply := (\<lambda>rid. Rejects)\<rparr>"

text \<open>
  A provider with one cluster, on which \<open>listServices\<close> lists two services and
  \<open>describeServices\<close> returns none of them.
\<close>

definition env_undescribed :: provider where
  "env_undescribed =
     \<lparr>listClusters_reply = Resolves (Some [cluster_main]),
      listServices_reply = (\<lambda>cl. Resolves (Some [service_web, service_api])),
      describeServices_reply = (\<lambda>ss cl. Resolves (Some [])),
      describeScalableTargets_reply = (\<lambda>rid. Resolves None),
      accepts = (\<lambda>r. True)\<rparr>"

text \<open>A provider with one cluster and one service of desired count 0 on it.\<close>

definition env_idle :: provider where
  "env_idle =
     \<lparr>listClusters_reply = Resolves (Some [cluster_main]),
      listServices_reply = (\<lambda>cl. Resolves (Some [service_web])),
      describeServices_reply = (\<lambda>ss cl. Resolves (Some
         [\<lparr>serviceArn = Some service_web, clusterArn = Some cluster_main,
           desiredCount = Some 0\<rparr>])),
      describeScalableTargets_reply = (\<lambda>rid. Resolves None),
      accepts = (\<lambda>r. True)\<rparr>"

text \<open>The State that \<open>conserve\<close> captures from \<open>scenario_provider c s\<close>.\<close>

definition scenario_target :: "string \<Rightarrow> string \<Rightarrow> scalable_target_state" where
  "scenario_target c s =
     \<lparr>namespace = ''ecs'', resourceId = getEcsServiceResourceId c s,
      scalableDimension = ''ecs:service:DesiredCount'', min_cap = 1, max_cap = 10\<rparr>"

definition scenario_service :: "string \<Rightarrow> string \<Rightarrow> ecs_service_state" where
  "scenario_service c s =
     \<lparr>service_arn = s, desired = 3, scalableTargets = Some [scenario_target c s]\<rparr>"

definition scenario_cluster :: "string \<Rightarrow> string \<Rightarrow> ecs_cluster_state" where
  "scenario_cluster c s = \<lparr>cluster_arn = c, services = [scenario_service c s]\<rparr>"

definition scenario_state :: "string \<Rightarrow> string \<Rightarrow> StopFargateEcsServicesState" where
  "scenario_state c s = [scenario_cluster c s]"

definition target_1_10 :: scalable_target_state where
  "target_1_10 = scenario_target cluster_main service_web"

definition web_3 :: ecs_service_state where
  "web_3 = scenario_service cluster_main service_web"

definition main_3 :: ecs_cluster_state where
  "main_3 = scenario_cluster cluster_main service_web"

definition state_3 :: StopFargateEcsServicesState where
  "state_3 = scenario_state cluster_main service_web"

text \<open>A second target of the same service, of another dimension.\<close>

definition target_2_4 :: scalable_target_state where
  "target_2_4 =
     \<lparr>namespace = ''ecs'', resourceId = ''service/main/web'',
      scalableDimension = ''ecs:service:TaskCount'', min_cap = 2, max_cap = 4\<rparr>"

text \<open>The State that \<open>conserve\<close> captures from \<open>env_idle\<close>.\<close>

definition web_0 :: ecs_service_state where
  "web_0 = \<lparr>service_arn = service_web, desired = 0, scalableTargets = Some []\<rparr>"

definition main_0 :: ecs_cluster_state where
  "main_0 = \<lparr>cluster_arn = cluster_main, services = [web_0]\<rparr>"

text \<open>A State whose service has two scalable targets.\<close>

definition web_two :: ecs_service_state where
  "web_two =
     \<lparr>service_arn = service_web, desired = 3,
      scalableTargets = Some [target_1_10, target_2_4]\<rparr>"

definition main_two :: ecs_cluster_state where
  "main_two = \<lparr>cluster_arn = cluster_main, services = [web_two]\<rparr>"

definition state_two_targets :: StopFargateEcsServicesState where
  "state_two_targets = [main_two]"

text \<open>
  Names for the seven classes, taken from the module paths that the registry imports
  (\<open>./stop-fargate-ecs-services.trick\<close> and so on).
\<close>

definition module_of :: "trick \<Rightarrow> string" where
  "module_of t =
     (case t of
        StopFargateEcsServicesTrick \<Rightarrow> ''stop-fargate-ecs-services''
      | StopRdsDatabaseInstancesTrick \<Rightarrow> ''stop-rds-database-instances''
      | ShutdownEC2InstancesTrick \<Rightarrow> ''shutdown-ec2-instances''
      | DecreaseDynamoDBProvisionedRcuWcuTrick \<Rightarrow> ''decrease-dynamodb-provisioved-rcu-wcu''
      | RemoveNatGatewaysTrick \<Rightarrow> ''remove-nat-gateways''
      | SnapshotRemoveElasticacheRedisTrick \<Rightarrow> ''snapshot-remove-elasticache-redis''
      | DecreaseKinesisStreamsShardsTrick \<Rightarrow> ''decrease-kinesis-streams-shards'')"

section \<open>Strings: the resource identifier\<close>

lemma split_not_Nil: "split sep s \<noteq> []"
  by (induction s) (auto split: list.splits)

lemma split_no_sep: "sep \<notin> set s \<Longrightarrow> split sep s = [s]"
  by (induction s) auto

lemma split_sep_tl: "sep \<in> set s \<Longrightarrow> tl (split sep s) \<noteq> []"
  by (induction s) (auto simp: split_not_Nil split_no_sep split: list.splits)

lemma last_split: "last (split sep s) = rev (takeWhile (\<lambda>ch. ch \<noteq> sep) (rev s))"
proof (induction s)
  case Nil
  show ?case by simp
next
  case (Cons x xs)
  show ?case
  proof (cases "x = sep")
    case True
    then show ?thesis using Cons split_not_Nil [of sep xs]
      by (simp add: takeWhile_append)
  next
    case False
    note neq = this
    obtain y ys where sp: "split sep xs = y # ys"
      using split_not_Nil [of sep xs] by (cases "split sep xs") auto
    show ?thesis
    proof (cases "sep \<in> set xs")
      case True
      then have "ys \<noteq> []" using split_sep_tl [of sep xs] sp by simp
      then show ?thesis using Cons sp neq True
        by (auto simp: takeWhile_append)
    next
      case False
      then have "split sep xs = [xs]" by (rule split_no_sep)
      then show ?thesis using neq False
        by (auto simp: takeWhile_append)
    qed
  qed
qed

lemma pop_split: "pop (split CHR ''/'' s) = Some (last_segment s)"
  by (simp add: pop_def split_not_Nil last_split last_segment_def)

lemma resource_id_eq:
  "getEcsServiceResourceId c s = ''service/'' @ last_segment c @ ''/'' @ last_segment s"
  by (simp add: getEcsServiceResourceId_def pop_split)

lemma conserveTargetsLoop_resource:
  "r \<in> set (sent_requests (conserveTargetsLoop p cl sv sts)) \<Longrightarrow>
   target_resource r = Some (getEcsServiceResourceId (cluster_arn cl) (service_arn sv))"
  by (induction sts) (auto simp: sent_requests_def Let_def split: if_splits)

lemma restoreTargetsLoop_resource:
  "r \<in> set (sent_requests (restoreTargetsLoop p d cl sv sts)) \<Longrightarrow>
   target_resource r = Some (getEcsServiceResourceId (cluster_arn cl) (service_arn sv))"
  by (induction sts) (auto simp: sent_requests_def Let_def split: if_splits)

lemma conserveScalableTargets_resource:
  "r \<in> set (sent_requests (conserveScalableTargets p d cl sv)) \<Longrightarrow>
   target_resource r = Some (getEcsServiceResourceId (cluster_arn cl) (service_arn sv))"
  using conserveTargetsLoop_resource [of r p cl sv "or_empty (scalableTargets sv)"]
  by (cases "no_targets (scalableTargets sv)"; cases d)
     (simp_all add: conserveScalableTargets_def sent_requests_def)

lemma restoreScalableTargets_resource:
  "r \<in> set (sent_requests (restoreScalableTargets p d cl sv)) \<Longrightarrow>
   target_resource r = Some (getEcsServiceResourceId (cluster_arn cl) (service_arn sv))"
  using restoreTargetsLoop_resource [of r p d cl sv "or_empty (scalableTargets sv)"]
  by (cases "no_targets (scalableTargets sv)")
     (simp_all add: restoreScalableTargets_def sent_requests_def)

lemma last_segment_main: "last_segment cluster_main = ''main''"
  by (simp add: last_segment_def cluster_main_def)

lemma last_segment_web: "last_segment service_web = ''web''"
  by (simp add: last_segment_def service_web_def)

lemma resource_id_main_web:
  "getEcsServiceResourceId cluster_main service_web = ''service/main/web''"
  by (simp add: resource_id_eq last_segment_main last_segment_web)

text \<open>
  C10. For every cluster ARN and service ARN, \<open>getEcsServiceResourceId\<close> is
  \<open>service/\<close>, the last \<open>/\<close>-separated segment of the cluster ARN, \<open>/\<close>, and the last
  \<open>/\<close>-separated segment of the service ARN. Every request that
  \<open>conserveScalableTargets\<close> or \<open>restoreScalableTargets\<close> sends for a service carries
  that identifier, computed from the ARNs of the cluster state and the service state, so
  both address the same target.
\<close>

theorem scalable_target_resource_id:
  "getEcsServiceResourceId c s = ''service/'' @ last_segment c @ ''/'' @ last_segment s
   \<and> (\<forall>r \<in> set (sent_requests (conserveScalableTargets p dryRun cl sv)) \<union>
            set (sent_requests (restoreScalableTargets p dryRun' cl sv)).
        target_resource r =
          Some (''service/'' @ last_segment (cluster_arn cl) @ ''/'' @
                last_segment (service_arn sv)))"
  using conserveScalableTargets_resource restoreScalableTargets_resource
  by (auto simp: resource_id_eq)

theorem scalable_target_resource_id_witness:
  "getEcsServiceResourceId cluster_main service_web = ''service/main/web''
   \<and> sent_requests (conserveScalableTargets env_ok False main_3 web_3) =
       [RegisterScalableTarget ''ecs'' ''service/main/web'' ''ecs:service:DesiredCount'' 0 0]
   \<and> sent_requests (restoreScalableTargets env_ok False main_3 web_3) =
       [RegisterScalableTarget ''ecs'' ''service/main/web'' ''ecs:service:DesiredCount'' 1 10]
   \<and> map target_resource
         (sent_requests (conserveScalableTargets env_ok False main_3 web_3) @
          sent_requests (restoreScalableTargets env_ok False main_3 web_3)) =
       [Some ''service/main/web'', Some ''service/main/web'']"
proof -
  have c: "sent_requests (conserveScalableTargets env_ok False main_3 web_3) =
       [RegisterScalableTarget ''ecs'' ''service/main/web'' ''ecs:service:DesiredCount'' 0 0]"
    by (simp add: conserveScalableTargets_def web_3_def main_3_def scenario_service_def
        scenario_cluster_def scenario_target_def env_ok_def scenario_provider_def
        sent_requests_def resource_id_main_web)
  have r: "sent_requests (restoreScalableTargets env_ok False main_3 web_3) =
       [RegisterScalableTarget ''ecs'' ''service/main/web'' ''ecs:service:DesiredCount'' 1 10]"
    by (simp add: restoreScalableTargets_def web_3_def main_3_def scenario_service_def
        scenario_cluster_def scenario_target_def env_ok_def scenario_provider_def
        sent_requests_def resource_id_main_web)
  have m: "cluster_arn main_3 = cluster_main" "service_arn web_3 = service_web"
    by (simp_all add: main_3_def web_3_def scenario_cluster_def scenario_service_def)
  show ?thesis
    using scalable_target_resource_id [of cluster_main service_web env_ok False main_3 web_3 False]
    by (simp add: c r m last_segment_main last_segment_web)
qed

section \<open>The registry\<close>

lemma all_foldl_register:
  "all (foldl register r calls) = all r @ concat calls"
  by (induction calls arbitrary: r) (simp_all add: all_def register_def)

lemma all_initialize:
  "all initialize =
     [StopFargateEcsServicesTrick, StopRdsDatabaseInstancesTrick,
      ShutdownEC2InstancesTrick, DecreaseDynamoDBProvisionedRcuWcuTrick,
      RemoveNatGatewaysTrick, SnapshotRemoveElasticacheRedisTrick,
      DecreaseKinesisStreamsShardsTrick]"
  by (simp add: initialize_def all_def register_def new_TrickRegistry_def)

lemma inj_module_of: "inj (getMachineName module_of)"
proof (rule injI)
  fix x y
  assume "getMachineName module_of x = getMachineName module_of y"
  then show "x = y"
    by (cases x; cases y; simp add: getMachineName_def module_of_def machineName_def)
qed

text \<open>
  C9. After any sequence of \<open>register\<close> calls on a new registry, \<open>all\<close> is the
  registered capabilities in the order of registration, nothing being rejected, and its
  length is the number of capabilities registered. \<open>initialize\<close> registers the seven
  classes once each, in the order of the source; when the machine names of the classes
  are unique, as the spec says of the classes whose files are missing, no two
  capabilities of that registry share a machine name.
\<close>

theorem registry_integrity:
  "all (foldl register new_TrickRegistry calls) = concat calls
   \<and> length (all (foldl register new_TrickRegistry calls)) = sum_list (map length calls)
   \<and> all initialize =
       [StopFargateEcsServicesTrick, StopRdsDatabaseInstancesTrick,
        ShutdownEC2InstancesTrick, DecreaseDynamoDBProvisionedRcuWcuTrick,
        RemoveNatGatewaysTrick, SnapshotRemoveElasticacheRedisTrick,
        DecreaseKinesisStreamsShardsTrick]
   \<and> (inj (getMachineName others) \<longrightarrow>
        distinct (map (getMachineName others) (all initialize)))"
proof -
  have a: "all (foldl register new_TrickRegistry calls) = concat calls"
    by (simp add: all_foldl_register) (simp add: all_def new_TrickRegistry_def)
  have l: "length (all (foldl register new_TrickRegistry calls)) = sum_list (map length calls)"
    by (simp add: a length_concat)
  have d: "distinct (all initialize)"
    by (simp add: all_initialize)
  have m: "distinct (map (getMachineName others) (all initialize))"
    if "inj (getMachineName others)"
  proof -
    have "inj_on (getMachineName others) (set (all initialize))"
      using that by (rule inj_on_subset) simp
    with d show ?thesis by (simp add: distinct_map)
  qed
  show ?thesis using a l all_initialize m by blast
qed

theorem registry_integrity_witness:
  "all (foldl register new_TrickRegistry
          [[StopFargateEcsServicesTrick], [],
           [RemoveNatGatewaysTrick, StopFargateEcsServicesTrick]])
     = [StopFargateEcsServicesTrick, RemoveNatGatewaysTrick, StopFargateEcsServicesTrick]
   \<and> inj (getMachineName module_of)
   \<and> distinct (map (getMachineName module_of) (all initialize))"
proof -
  have "all (foldl register new_TrickRegistry
          [[StopFargateEcsServicesTrick], [],
           [RemoveNatGatewaysTrick, StopFargateEcsServicesTrick]])
     = concat [[StopFargateEcsServicesTrick], [],
           [RemoveNatGatewaysTrick, StopFargateEcsServicesTrick]]"
    using registry_integrity by blast
  moreover have "distinct (map (getMachineName module_of) (all initialize))"
    using registry_integrity [of "[]" module_of] inj_module_of by blast
  ultimately show ?thesis using inj_module_of by simp
qed

section \<open>The wait for stability\<close>

lemma main_3_arn: "cluster_arn main_3 = cluster_main"
  by (simp add: main_3_def scenario_cluster_def)

lemma web_3_fields:
  "service_arn web_3 = service_web" "desired web_3 = 3"
  "scalableTargets web_3 = Some [target_1_10]"
  by (simp_all add: web_3_def scenario_service_def target_1_10_def)

lemma env_ok_accepts: "accepts env_ok r"
  by (simp add: env_ok_def scenario_provider_def)

text \<open>
  C2. The claim asks that the wait for stability completes before the node of a
  mutated service is reported finished. \<open>conserveService\<close> and \<open>restoreService\<close>
  build the request of \<open>waitFor('servicesStable', ...)\<close> and never send it: for the service
  of desired count 3 and a provider that accepts every request, the one request that
  reaches the provider is \<open>updateService\<close>, and the final output is set with no answer of
  the provider about stability.
\<close>

theorem wait_for_stability_unsent:
  "trace (conserveService env_ok False main_3 web_3) =
     [Output [Text ''Updating desired count to zero...''],
      Sent (UpdateService cluster_main service_web 0),
      Output [Text ''Waiting for service to scale down to zero...''],
      Unsent (WaitForServicesStable cluster_main [service_web]),
      Output [Text ''Set desired count to zero'']]
   \<and> sent_requests (conserveService env_ok False main_3 web_3) =
       [UpdateService cluster_main service_web 0]
   \<and> trace (restoreService env_ok False main_3 web_3) =
       [Output [Text ''Updating desired count to '', Num 3, Text ''...''],
        Sent (UpdateService cluster_main service_web 3),
        Output [Text ''Waiting for service to reach '', Num 3, Text '' desired tasks...''],
        Unsent (WaitForServicesStable cluster_main [service_web]),
        Output [Text ''Restored desired count to '', Num 3]]
   \<and> sent_requests (restoreService env_ok False main_3 web_3) =
       [UpdateService cluster_main service_web 3]"
  by (simp add: conserveService_def restoreService_def sent_requests_def main_3_arn
      web_3_fields env_ok_accepts Let_def)

section \<open>Dry run\<close>

lemma conserveService_dry: "only_skips (conserveService p True cl sv)"
  by (simp add: conserveService_def only_skips_def)

lemma conserveScalableTargets_dry: "only_skips (conserveScalableTargets p True cl sv)"
  by (simp add: conserveScalableTargets_def only_skips_def)

lemma restoreService_dry: "only_skips (restoreService p True cl sv)"
  by (simp add: restoreService_def only_skips_def)

lemma restoreTargetsLoop_dry:
  "trace (restoreTargetsLoop p True cl sv sts) =
     replicate (length sts) (Skip ''Skipped due to dry-run'')
   \<and> failure (restoreTargetsLoop p True cl sv sts) = None"
  by (induction sts) (simp_all add: Let_def)

lemma restoreScalableTargets_dry: "only_skips (restoreScalableTargets p True cl sv)"
proof (cases "scalableTargets sv")
  case None
  then show ?thesis by (simp add: restoreScalableTargets_def only_skips_def)
next
  case (Some sts)
  then show ?thesis
    by (cases sts)
       (simp_all add: restoreScalableTargets_def only_skips_def restoreTargetsLoop_dry
          list_all_iff)
qed

lemma skips_sent: "list_all is_skip es \<Longrightarrow> concat (map sent_of es) = []"
proof (induction es)
  case Nil
  show ?case by simp
next
  case (Cons e es)
  then show ?case by (cases e) simp_all
qed

lemma only_skips_sent: "only_skips r \<Longrightarrow> sent_requests r = []"
  unfolding only_skips_def sent_requests_def by (rule skips_sent) simp

lemma for_each_service_set:
  "n \<in> set (for_each_service f st) \<Longrightarrow> \<exists>cl sv. n = f cl sv"
  by (auto simp: for_each_service_def)

lemma listr_requests_empty:
  "(\<And>n. n \<in> set l \<Longrightarrow> node_requests n = []) \<Longrightarrow> listr_requests l = []"
  by (simp add: listr_requests_def)

lemma conserve_node_dry:
  "t \<in> set (subtasks (conserve_node p True cl sv)) \<Longrightarrow> only_skips (run t)"
  by (auto simp: conserve_node_def conserveService_dry conserveScalableTargets_dry)

lemma restore_node_dry:
  "t \<in> set (subtasks (restore_node p True cl sv)) \<Longrightarrow> only_skips (run t)"
  by (auto simp: restore_node_def restoreService_dry restoreScalableTargets_dry)

lemma conserve_nodes_dry_requests:
  "listr_requests (for_each_service (conserve_node p True) st) = []"
proof (rule listr_requests_empty)
  fix n
  assume "n \<in> set (for_each_service (conserve_node p True) st)"
  then obtain cl sv where "n = conserve_node p True cl sv"
    using for_each_service_set by blast
  then show "node_requests n = []"
    by (simp add: node_requests_def conserve_node_def only_skips_sent conserveService_dry
        conserveScalableTargets_dry)
qed

lemma restore_nodes_dry_requests:
  "listr_requests (for_each_service (restore_node p True) st) = []"
proof (rule listr_requests_empty)
  fix n
  assume "n \<in> set (for_each_service (restore_node p True) st)"
  then obtain cl sv where "n = restore_node p True cl sv"
    using for_each_service_set by blast
  then show "node_requests n = []"
    by (simp add: node_requests_def restore_node_def only_skips_sent restoreService_dry
        restoreScalableTargets_dry)
qed

lemma conserve_Inr:
  "conserve p subListr dryRun = Inr (st, l) \<Longrightarrow>
   l = subListr @ for_each_service (conserve_node p dryRun) st"
  by (auto simp: conserve_def split: sum.splits)

section \<open>The scenario: desired count 3 and one scalable target of 1 to 10\<close>

lemma chunk_single: "chunk [x] 10 = [[x]]"
proof -
  have "chunk [x] 10 = [x] # chunk [] 10"
    by (subst chunk.simps) simp
  also have "chunk ([]::'a list) 10 = []"
    by (subst chunk.simps) simp
  finally show ?thesis .
qed

lemma scenario_describeAllServices:
  "describeAllServices (scenario_provider c s) c =
     Inr [\<lparr>serviceArn = Some s, clusterArn = Some c, desiredCount = Some 3\<rparr>]"
  by (simp add: describeAllServices_def listServices_def scenario_provider_def chunk_single)

lemma scenario_service_state:
  "c \<noteq> [] \<Longrightarrow> s \<noteq> [] \<Longrightarrow>
   service_state (scenario_provider c s)
     \<lparr>serviceArn = Some s, clusterArn = Some c, desiredCount = Some 3\<rparr> =
   Inr (scenario_service c s)"
  by (simp add: service_state_def describeAllScalableTargets_def scenario_provider_def
      scenario_service_def scenario_target_def target_state_def)

lemma scenario_getCurrentState:
  "c \<noteq> [] \<Longrightarrow> s \<noteq> [] \<Longrightarrow>
   getCurrentState (scenario_provider c s) [c] = Inr (scenario_state c s)"
  by (simp add: getCurrentState_def cluster_state_def scenario_describeAllServices
      scenario_service_state scenario_state_def scenario_cluster_def promise_all_def)

lemma scenario_listClusters: "listClusters (scenario_provider c s) = Inr [c]"
  by (simp add: listClusters_def scenario_provider_def)

lemma scenario_conserve:
  "c \<noteq> [] \<Longrightarrow> s \<noteq> [] \<Longrightarrow>
   conserve (scenario_provider c s) subListr dryRun =
     Inr (scenario_state c s,
          subListr @ [conserve_node (scenario_provider c s) dryRun
                        (scenario_cluster c s) (scenario_service c s)])"
  by (simp add: conserve_def scenario_listClusters scenario_getCurrentState)
     (simp add: for_each_service_def scenario_state_def scenario_cluster_def)

lemma scenario_restore:
  "restore p subListr dryRun (scenario_state c s) =
     subListr @ [restore_node p dryRun (scenario_cluster c s) (scenario_service c s)]"
  by (simp add: restore_def for_each_service_def scenario_state_def scenario_cluster_def)

lemma scenario_conserve_requests:
  "requests_by_task (conserve_node (scenario_provider c s) False
       (scenario_cluster c s) (scenario_service c s)) =
     [[UpdateService c s 0],
      [RegisterScalableTarget ''ecs'' (getEcsServiceResourceId c s)
         ''ecs:service:DesiredCount'' 0 0]]"
  by (simp add: requests_by_task_def conserve_node_def conserveService_def
      conserveScalableTargets_def sent_requests_def scenario_cluster_def
      scenario_service_def scenario_target_def scenario_provider_def)

lemma scenario_restore_requests:
  "requests_by_task (restore_node (scenario_provider c s) False
       (scenario_cluster c s) (scenario_service c s)) =
     [[UpdateService c s 3],
      [RegisterScalableTarget ''ecs'' (getEcsServiceResourceId c s)
         ''ecs:service:DesiredCount'' 1 10]]"
  by (simp add: requests_by_task_def restore_node_def restoreService_def Let_def
      restoreScalableTargets_def sent_requests_def scenario_cluster_def
      scenario_service_def scenario_target_def scenario_provider_def)

lemma cluster_main_not_Nil: "cluster_main \<noteq> []"
  by (simp add: cluster_main_def)

lemma service_web_not_Nil: "service_web \<noteq> []"
  by (simp add: service_web_def)

text \<open>
  C7. For a cluster \<open>c\<close> with one service \<open>s\<close> of desired count 3 and one scalable target
  of minimum 1 and maximum 10 (the ARNs not empty), \<open>conserve\<close> with \<open>dryRun = false\<close>
  returns the State that records desired 3 and the target with 1 and 10, and adds one
  node whose tasks send \<open>updateService\<close> with desired count 0 and
  \<open>registerScalableTarget\<close> with capacities 0 and 0; \<open>restore\<close> with that State adds one
  node whose tasks send \<open>updateService\<close> with desired count 3 and
  \<open>registerScalableTarget\<close> with capacities 1 and 10.
\<close>

theorem scenario_round_trip:
  assumes "c \<noteq> []" and "s \<noteq> []"
  shows "conserve (scenario_provider c s) [] False =
           Inr (scenario_state c s,
                [conserve_node (scenario_provider c s) False
                   (scenario_cluster c s) (scenario_service c s)])
         \<and> map desired (services (scenario_cluster c s)) = [3]
         \<and> map (\<lambda>t. (min_cap t, max_cap t))
               (or_empty (scalableTargets (scenario_service c s))) = [(1, 10)]
         \<and> requests_by_task (conserve_node (scenario_provider c s) False
               (scenario_cluster c s) (scenario_service c s)) =
             [[UpdateService c s 0],
              [RegisterScalableTarget ''ecs'' (getEcsServiceResourceId c s)
                 ''ecs:service:DesiredCount'' 0 0]]
         \<and> map requests_by_task
               (restore (scenario_provider c s) [] False (scenario_state c s)) =
             [[[UpdateService c s 3],
               [RegisterScalableTarget ''ecs'' (getEcsServiceResourceId c s)
                  ''ecs:service:DesiredCount'' 1 10]]]"
proof -
  have "conserve (scenario_provider c s) [] False =
          Inr (scenario_state c s,
               [conserve_node (scenario_provider c s) False
                  (scenario_cluster c s) (scenario_service c s)])"
    using assms by (simp add: scenario_conserve)
  moreover have "map desired (services (scenario_cluster c s)) = [3]"
    by (simp add: scenario_cluster_def scenario_service_def)
  moreover have "map (\<lambda>t. (min_cap t, max_cap t))
      (or_empty (scalableTargets (scenario_service c s))) = [(1, 10)]"
    by (simp add: scenario_service_def scenario_target_def)
  ultimately show ?thesis
    by (simp add: scenario_conserve_requests scenario_restore scenario_restore_requests)
qed

theorem scenario_round_trip_witness:
  "cluster_main \<noteq> [] \<and> service_web \<noteq> []
   \<and> conserve env_ok [] False = Inr (state_3, [conserve_node env_ok False main_3 web_3])
   \<and> requests_by_task (conserve_node env_ok False main_3 web_3) =
       [[UpdateService cluster_main service_web 0],
        [RegisterScalableTarget ''ecs'' ''service/main/web'' ''ecs:service:DesiredCount'' 0 0]]
   \<and> map requests_by_task (restore env_ok [] False state_3) =
       [[[UpdateService cluster_main service_web 3],
         [RegisterScalableTarget ''ecs'' ''service/main/web''
            ''ecs:service:DesiredCount'' 1 10]]]"
  using scenario_round_trip [OF cluster_main_not_Nil service_web_not_Nil]
  by (simp add: env_ok_def state_3_def main_3_def web_3_def resource_id_main_web
      cluster_main_not_Nil service_web_not_Nil)

text \<open>
  C3. With \<open>dryRun = true\<close>, for every provider, every tags value and every State, the
  tasks of the nodes that \<open>conserve\<close> and \<open>restore\<close> add send no mutating request (no
  \<open>updateService\<close> and no \<open>registerScalableTarget\<close>); every one of these tasks reports
  a skip, and nothing but skips.
\<close>

theorem dry_run_purity:
  "(TrickInterface_conserve p subListr True tags = Inr (st, l) \<longrightarrow>
      l = subListr @ for_each_service (conserve_node p True) st
      \<and> filter is_mutating (listr_requests (for_each_service (conserve_node p True) st)) = []
      \<and> (\<forall>n \<in> set (for_each_service (conserve_node p True) st).
           \<forall>t \<in> set (subtasks n). only_skips (run t)))
   \<and> restore p subListr True st' = subListr @ for_each_service (restore_node p True) st'
   \<and> filter is_mutating (listr_requests (for_each_service (restore_node p True) st')) = []
   \<and> (\<forall>n \<in> set (for_each_service (restore_node p True) st').
        \<forall>t \<in> set (subtasks n). only_skips (run t))"
proof -
  have c: "\<forall>n \<in> set (for_each_service (conserve_node p True) st).
             \<forall>t \<in> set (subtasks n). only_skips (run t)"
    using for_each_service_set conserve_node_dry by blast
  have r: "\<forall>n \<in> set (for_each_service (restore_node p True) st').
             \<forall>t \<in> set (subtasks n). only_skips (run t)"
    using for_each_service_set restore_node_dry by blast
  have l: "TrickInterface_conserve p subListr True tags = Inr (st, l) \<longrightarrow>
      l = subListr @ for_each_service (conserve_node p True) st"
    by (simp add: TrickInterface_conserve_def conserve_Inr)
  show ?thesis
    using c r l
    by (simp add: conserve_nodes_dry_requests restore_nodes_dry_requests restore_def)
qed

theorem dry_run_purity_witness:
  "TrickInterface_conserve env_ok [] True [(''team'', ''a'')] =
     Inr (state_3, [conserve_node env_ok True main_3 web_3])
   \<and> filter is_mutating (listr_requests [conserve_node env_ok True main_3 web_3]) = []
   \<and> map (\<lambda>t. trace (run t)) (subtasks (conserve_node env_ok True main_3 web_3)) =
       [[Skip ''Skipped due to dry-run''], [Skip ''Skipped due to dry-run'']]
   \<and> filter is_mutating (listr_requests (restore env_ok [] True state_3)) = []
   \<and> map (\<lambda>t. trace (run t)) (subtasks (restore_node env_ok True main_3 web_3)) =
       [[Skip ''Skipped due to dry-run''], [Skip ''Skipped due to dry-run'']]"
proof -
  have c: "TrickInterface_conserve env_ok [] True [(''team'', ''a'')] =
     Inr (state_3, [conserve_node env_ok True main_3 web_3])"
    using scenario_conserve [OF cluster_main_not_Nil service_web_not_Nil, of "[]" True]
    by (simp add: TrickInterface_conserve_def env_ok_def state_3_def main_3_def web_3_def)
  have f: "for_each_service f state_3 = [f main_3 web_3]" for f :: "ecs_cluster_state \<Rightarrow> ecs_service_state \<Rightarrow> node"
    by (simp add: for_each_service_def state_3_def scenario_state_def main_3_def web_3_def
        scenario_cluster_def)
  have t: "map (\<lambda>t. trace (run t)) (subtasks (conserve_node env_ok True main_3 web_3)) =
       [[Skip ''Skipped due to dry-run''], [Skip ''Skipped due to dry-run'']]"
    by (simp add: conserve_node_def conserveService_def conserveScalableTargets_def
        web_3_fields)
  have u: "map (\<lambda>t. trace (run t)) (subtasks (restore_node env_ok True main_3 web_3)) =
       [[Skip ''Skipped due to dry-run''], [Skip ''Skipped due to dry-run'']]"
    by (simp add: restore_node_def restoreService_def restoreScalableTargets_def
        web_3_fields)
  show ?thesis
    using dry_run_purity [of env_ok "[]" "[(''team'', ''a'')]" state_3
        "[conserve_node env_ok True main_3 web_3]" state_3] c
    by (simp add: f t u)
qed

section \<open>Promise.all\<close>

lemma rejections_Nil:
  "rejections (map f xs) = [] \<Longrightarrow>
   list_all2 (\<lambda>x y. f x = Inr y) xs (fulfilled (map f xs))"
proof (induction xs)
  case Nil
  show ?case by simp
next
  case (Cons a xs)
  then show ?case by (cases "f a") simp_all
qed

lemma rejections_mem: "(r \<in> set (rejections rs)) = (Inl r \<in> set rs)"
proof (induction rs)
  case Nil
  show ?case by simp
next
  case (Cons a rs)
  then show ?case by (cases a) auto
qed

lemma promise_all_Inr:
  "promise_all (map f xs) = Inr ys \<Longrightarrow> list_all2 (\<lambda>x y. f x = Inr y) xs ys"
  using rejections_Nil [of f xs]
  by (auto simp: promise_all_def Let_def split: if_splits option.splits)

lemma promise_all_first:
  "find (\<lambda>r. fst r = AtOnce) (rejections rs) = Some r \<Longrightarrow> promise_all rs = Inl r"
  by (auto simp: promise_all_def Let_def)

lemma promise_all_AfterIO:
  assumes "rejections rs \<noteq> []" and "\<And>r. r \<in> set (rejections rs) \<Longrightarrow> fst r = AfterIO"
  shows "promise_all rs = Inl (AfterIO, concat (map snd (rejections rs)))"
proof -
  have a: "find (\<lambda>r. fst r = AtOnce) (rejections rs) = None"
    using assms(2) by (fastforce simp: find_None_iff)
  have b: "find (\<lambda>r. fst r = NextTick) (rejections rs) = None"
    using assms(2) by (fastforce simp: find_None_iff)
  show ?thesis using assms(1) by (simp add: promise_all_def a b)
qed

section \<open>Discovery: what the State records\<close>

lemma service_state_Inr:
  "service_state p svc = Inr e \<Longrightarrow>
   serviceArn svc = Some (service_arn e) \<and> desiredCount svc = Some (desired e)"
  by (auto simp: service_state_def split: option.splits sum.splits)

lemma service_states_record:
  assumes "promise_all (map (service_state p) svcs) = Inr es"
  shows "records es svcs"
proof -
  have "list_all2 (\<lambda>svc e. service_state p svc = Inr e) svcs es"
    using assms by (rule promise_all_Inr)
  then have "list_all2 (\<lambda>svc e. serviceArn svc = Some (service_arn e) \<and>
      desiredCount svc = Some (desired e)) svcs es"
    by (rule list_all2_mono) (simp add: service_state_Inr)
  then show "records es svcs"
    unfolding records_def by (induction rule: list_all2_induct) simp_all
qed

lemma describeChunks_Inr:
  "describeChunks p c chunks acc = Inr svcs \<Longrightarrow>
   svcs = acc @ concat (map (\<lambda>ss. case describeServices_reply p ss c of
                                     Rejects \<Rightarrow> [] | Resolves r \<Rightarrow> or_empty r) chunks)"
proof (induction chunks arbitrary: acc)
  case Nil
  then show ?case by simp
next
  case (Cons ss chunks)
  show ?case
  proof (cases "describeServices_reply p ss c")
    case Rejects
    then show ?thesis using Cons.prems by simp
  next
    case (Resolves r)
    then have "describeChunks p c chunks (acc @ or_empty r) = Inr svcs"
      using Cons.prems by simp
    from Cons.IH [OF this] show ?thesis using Resolves by simp
  qed
qed

lemma describeAllServices_Inr:
  "describeAllServices p c = Inr svcs \<Longrightarrow>
   \<exists>arns. listServices p c = Inr arns \<and> svcs = described p c arns"
  using describeChunks_Inr [of p c _ "[]" svcs]
  by (auto simp: describeAllServices_def described_def split: sum.splits)

lemma cluster_state_Inr:
  assumes "cluster_state p c = Inr cl"
  shows "cluster_arn cl = c \<and>
         (\<exists>svcs. describeAllServices p c = Inr svcs \<and> records (services cl) svcs)"
proof -
  obtain svcs where d: "describeAllServices p c = Inr svcs"
    using assms by (cases "describeAllServices p c") (simp_all add: cluster_state_def)
  obtain ss where s: "promise_all (map (service_state p) svcs) = Inr ss"
    using assms d
    by (cases "promise_all (map (service_state p) svcs)")
       (auto simp: cluster_state_def)
  have "cl = \<lparr>cluster_arn = c, services = ss\<rparr>"
    using assms d s by (simp add: cluster_state_def)
  then show ?thesis using d service_states_record [OF s] by simp
qed

lemma getCurrentState_Inr:
  assumes "getCurrentState p cs = Inr st"
  shows "map cluster_arn st = cs \<and>
         (\<forall>cl \<in> set st. \<exists>svcs. describeAllServices p (cluster_arn cl) = Inr svcs \<and>
            records (services cl) svcs)"
proof -
  have "list_all2 (\<lambda>c cl. cluster_state p c = Inr cl) cs st"
    using assms unfolding getCurrentState_def by (rule promise_all_Inr)
  then show ?thesis
  proof (induction rule: list_all2_induct)
    case Nil
    show ?case by simp
  next
    case (Cons c cs cl st)
    then show ?case using cluster_state_Inr [of p c cl] by auto
  qed
qed

lemma conserve_Inr_state:
  assumes "conserve p subListr dryRun = Inr (st, l)"
  shows "listClusters p = Inr (map cluster_arn st) \<and>
         (\<forall>cl \<in> set st. \<exists>svcs. describeAllServices p (cluster_arn cl) = Inr svcs \<and>
            records (services cl) svcs)"
proof -
  obtain cs where cs: "listClusters p = Inr cs" and g: "getCurrentState p cs = Inr st"
    using assms by (auto simp: conserve_def split: sum.splits)
  show ?thesis using getCurrentState_Inr [OF g] cs by simp
qed

lemma conserve_Inr_described:
  assumes "conserve p subListr dryRun = Inr (st, l)" and "cl \<in> set st"
  shows "\<exists>arns. listServices p (cluster_arn cl) = Inr arns \<and>
           records (services cl) (described p (cluster_arn cl) arns)"
proof -
  obtain svcs where "describeAllServices p (cluster_arn cl) = Inr svcs"
    and "records (services cl) svcs"
    using conserve_Inr_state [OF assms(1)] assms(2) by blast
  then show ?thesis using describeAllServices_Inr [of p "cluster_arn cl" svcs] by blast
qed

lemma for_each_service_titles:
  "map title (for_each_service (conserve_node p dryRun) st) =
     concat (map (\<lambda>cl. map (\<lambda>sv. getEcsServiceResourceId (cluster_arn cl) (service_arn sv))
                           (services cl)) st)"
  by (simp add: for_each_service_def map_concat conserve_node_def comp_def)

lemma for_each_service_mem:
  "cl \<in> set st \<Longrightarrow> sv \<in> set (services cl) \<Longrightarrow> f cl sv \<in> set (for_each_service f st)"
  by (auto simp: for_each_service_def)

lemma conserve_node_at_zero:
  assumes "desired sv \<le> 0"
  shows "\<exists>t \<in> set (subtasks (conserve_node p dryRun cl sv)).
           task_title t = ''Desired count'' \<and>
           trace (run t) =
             [Skip (if dryRun then ''Skipped due to dry-run''
                    else ''Skipped, desired count is already zero'')]"
  using assms by (simp add: conserve_node_def conserveService_def)

lemma chunk_pair: "chunk [x, y] 10 = [[x, y]]"
proof -
  have "chunk [x, y] 10 = [x, y] # chunk [] 10"
    by (subst chunk.simps) simp
  also have "chunk ([]::'a list) 10 = []"
    by (subst chunk.simps) simp
  finally show ?thesis .
qed

lemma idle_conserve:
  "conserve env_idle [] False =
     Inr ([main_0],
          [\<lparr>title = ''service/main/web'',
            subtasks =
              [\<lparr>task_title = ''Desired count'',
                run = \<lparr>trace = [Skip ''Skipped, desired count is already zero''],
                       failure = None\<rparr>\<rparr>,
               \<lparr>task_title = ''Auto scaling'',
                run = \<lparr>trace = [Skip ''No scalable targets defined''],
                       failure = None\<rparr>\<rparr>],
            exitOnError = False, concurrent = True, collapse = False\<rparr>])"
  by (simp add: conserve_def listClusters_def getCurrentState_def cluster_state_def
      describeAllServices_def listServices_def chunk_single service_state_def
      describeAllScalableTargets_def env_idle_def main_0_def web_0_def for_each_service_def
      cluster_main_not_Nil service_web_not_Nil promise_all_def conserve_node_def
      conserveService_def conserveScalableTargets_def resource_id_main_web)

text \<open>
  C8, as the claim states it, fails: when \<open>listServices\<close> lists two services of a cluster
  and \<open>describeServices\<close> returns neither, \<open>conserve\<close> returns a State whose cluster
  entry has no service entry and adds no node; the two listed services are left out
  with no skip.
\<close>

theorem undescribed_services_counterexample:
  "listServices env_undescribed cluster_main = Inr [service_web, service_api]
   \<and> conserve env_undescribed [] False =
       Inr ([\<lparr>cluster_arn = cluster_main, services = []\<rparr>], [])"
  by (simp add: conserve_def listClusters_def getCurrentState_def cluster_state_def
      describeAllServices_def listServices_def chunk_pair env_undescribed_def
      for_each_service_def promise_all_def)

text \<open>
  C8, amended. Whenever \<open>conserve\<close> returns a State, the State has one cluster entry
  for each listed cluster and, in it, one service entry for each service that
  \<open>describeServices\<close> returned for the listed ARNs of that cluster, in the same order,
  with its ARN and its desired count. One node is added for each service entry, titled by
  the resource identifier of the service. A service whose desired count is not above
  zero is recorded like the others, and the desired-count task of its node reports a
  skip. A service that is listed and not described has no entry and no node.
\<close>

theorem state_records_described:
  assumes "conserve p subListr dryRun = Inr (st, l)"
  shows "listClusters p = Inr (map cluster_arn st)
         \<and> (\<forall>cl \<in> set st. \<exists>arns. listServices p (cluster_arn cl) = Inr arns \<and>
              records (services cl) (described p (cluster_arn cl) arns))
         \<and> l = subListr @ for_each_service (conserve_node p dryRun) st
         \<and> map title (for_each_service (conserve_node p dryRun) st) =
             concat (map (\<lambda>cl. map (\<lambda>sv. getEcsServiceResourceId (cluster_arn cl)
                                              (service_arn sv)) (services cl)) st)
         \<and> (\<forall>cl \<in> set st. \<forall>sv \<in> set (services cl).
              conserve_node p dryRun cl sv \<in> set (for_each_service (conserve_node p dryRun) st)
              \<and> (desired sv \<le> 0 \<longrightarrow>
                   (\<exists>t \<in> set (subtasks (conserve_node p dryRun cl sv)).
                      task_title t = ''Desired count'' \<and>
                      trace (run t) =
                        [Skip (if dryRun then ''Skipped due to dry-run''
                               else ''Skipped, desired count is already zero'')])))"
proof -
  have a: "listClusters p = Inr (map cluster_arn st)"
    using conserve_Inr_state [OF assms] by blast
  have b: "\<forall>cl \<in> set st. \<exists>arns. listServices p (cluster_arn cl) = Inr arns \<and>
      records (services cl) (described p (cluster_arn cl) arns)"
    using conserve_Inr_described [OF assms] by blast
  have c: "l = subListr @ for_each_service (conserve_node p dryRun) st"
    using assms by (rule conserve_Inr)
  have d: "\<forall>cl \<in> set st. \<forall>sv \<in> set (services cl).
      conserve_node p dryRun cl sv \<in> set (for_each_service (conserve_node p dryRun) st)
      \<and> (desired sv \<le> 0 \<longrightarrow>
           (\<exists>t \<in> set (subtasks (conserve_node p dryRun cl sv)).
              task_title t = ''Desired count'' \<and>
              trace (run t) =
                [Skip (if dryRun then ''Skipped due to dry-run''
                       else ''Skipped, desired count is already zero'')]))"
    using for_each_service_mem [of _ st _ "conserve_node p dryRun"]
      conserve_node_at_zero [of _ p dryRun]
    by blast
  show ?thesis using a b c d for_each_service_titles [of p dryRun st] by blast
qed

theorem state_records_described_witness:
  "conserve env_idle [] False =
     Inr ([main_0],
          [\<lparr>title = ''service/main/web'',
            subtasks =
              [\<lparr>task_title = ''Desired count'',
                run = \<lparr>trace = [Skip ''Skipped, desired count is already zero''],
                       failure = None\<rparr>\<rparr>,
               \<lparr>task_title = ''Auto scaling'',
                run = \<lparr>trace = [Skip ''No scalable targets defined''],
                       failure = None\<rparr>\<rparr>],
            exitOnError = False, concurrent = True, collapse = False\<rparr>])
   \<and> listServices env_idle cluster_main = Inr [service_web]
   \<and> records (services main_0) (described env_idle cluster_main [service_web])
   \<and> map desired (services main_0) = [0]
   \<and> [conserve_node env_idle False main_0 web_0] =
       [\<lparr>title = ''service/main/web'',
         subtasks =
           [\<lparr>task_title = ''Desired count'',
             run = \<lparr>trace = [Skip ''Skipped, desired count is already zero''],
                    failure = None\<rparr>\<rparr>,
            \<lparr>task_title = ''Auto scaling'',
             run = \<lparr>trace = [Skip ''No scalable targets defined''],
                    failure = None\<rparr>\<rparr>],
         exitOnError = False, concurrent = True, collapse = False\<rparr>]"
proof -
  note t = state_records_described [OF idle_conserve]
  have ls: "listServices env_idle cluster_main = Inr [service_web]"
    by (simp add: listServices_def env_idle_def)
  have m: "cluster_arn main_0 = cluster_main" "services main_0 = [web_0]"
    by (simp_all add: main_0_def)
  have "\<exists>arns. listServices env_idle (cluster_arn main_0) = Inr arns \<and>
      records (services main_0) (described env_idle (cluster_arn main_0) arns)"
    using t by simp
  then have r: "records (services main_0) (described env_idle cluster_main [service_web])"
    using ls by (auto simp: m)
  have n: "[conserve_node env_idle False main_0 web_0] =
       [\<lparr>title = ''service/main/web'',
         subtasks =
           [\<lparr>task_title = ''Desired count'',
             run = \<lparr>trace = [Skip ''Skipped, desired count is already zero''],
                    failure = None\<rparr>\<rparr>,
            \<lparr>task_title = ''Auto scaling'',
             run = \<lparr>trace = [Skip ''No scalable targets defined''],
                    failure = None\<rparr>\<rparr>],
         exitOnError = False, concurrent = True, collapse = False\<rparr>]"
    using t by (simp add: for_each_service_def m)
  show ?thesis using idle_conserve ls r n by (simp add: m web_0_def)
qed

section \<open>Discovery failures\<close>

lemma service_state_missing:
  "serviceArn svc = None \<or> desiredCount svc = None \<Longrightarrow>
   \<exists>e \<in> set missing_field_errors. service_state p svc = Inl (AtOnce, [e])"
  by (auto simp: service_state_def missing_field_errors_def split: option.splits)

lemma service_state_AtOnce:
  assumes "service_state p svc = Inl (AtOnce, es)"
  shows "\<exists>e \<in> set missing_field_errors. es = [e]"
proof -
  have "awaited m \<noteq> AtOnce" for m
    by (cases m) simp_all
  then show ?thesis using assms
    by (auto simp: service_state_def missing_field_errors_def
        split: option.splits sum.splits prod.splits)
qed

lemma services_missing:
  assumes "svc \<in> set svcs" and "serviceArn svc = None \<or> desiredCount svc = None"
  shows "\<exists>e \<in> set missing_field_errors.
           promise_all (map (service_state p) svcs) = Inl (AtOnce, [e])"
proof -
  let ?rs = "rejections (map (service_state p) svcs)"
  obtain e0 where e0: "service_state p svc = Inl (AtOnce, [e0])"
    using service_state_missing [OF assms(2)] by blast
  then have "Inl (AtOnce, [e0]) \<in> set (map (service_state p) svcs)"
    using assms(1) by force
  then have m: "(AtOnce, [e0]) \<in> set ?rs"
    by (simp add: rejections_mem)
  have "find (\<lambda>r. fst r = AtOnce) ?rs \<noteq> None"
  proof
    assume "find (\<lambda>r. fst r = AtOnce) ?rs = None"
    then have "\<not> (\<exists>x. x \<in> set ?rs \<and> fst x = AtOnce)"
      by (simp add: find_None_iff)
    then show False using m by force
  qed
  then obtain r where r: "find (\<lambda>r. fst r = AtOnce) ?rs = Some r"
    by blast
  then have "fst r = AtOnce" and "r \<in> set ?rs"
    by (auto simp: find_Some_iff)
  then obtain es where es: "r = (AtOnce, es)" and "Inl (AtOnce, es) \<in> set (map (service_state p) svcs)"
    by (cases r) (auto simp: rejections_mem)
  then obtain s where "service_state p s = Inl (AtOnce, es)"
    by auto
  then obtain e where "e \<in> set missing_field_errors" and "es = [e]"
    using service_state_AtOnce by blast
  then show ?thesis using promise_all_first [OF r] es by blast
qed

lemma cluster_state_missing:
  assumes "describeAllServices p c = Inr svcs" and "svc \<in> set svcs"
    and "serviceArn svc = None \<or> desiredCount svc = None"
  shows "\<exists>e \<in> set missing_field_errors. cluster_state p c = Inl (AfterIO, [e])"
  using services_missing [OF assms(2) assms(3), of p] assms(1)
  by (auto simp: cluster_state_def)

lemma cluster_state_moment: "cluster_state p c = Inl (m, es) \<Longrightarrow> m = AfterIO"
  by (auto simp: cluster_state_def split: sum.splits prod.splits)

lemma getCurrentState_rejected:
  assumes "c \<in> set cs" and "cluster_state p c = Inl (AfterIO, es0)"
  shows "getCurrentState p cs =
           Inl (AfterIO, concat (map snd (rejections (map (cluster_state p) cs))))
         \<and> set es0 \<subseteq> set (concat (map snd (rejections (map (cluster_state p) cs))))"
proof -
  let ?rs = "rejections (map (cluster_state p) cs)"
  have "Inl (AfterIO, es0) \<in> set (map (cluster_state p) cs)"
    using assms by force
  then have m: "(AfterIO, es0) \<in> set ?rs"
    by (simp add: rejections_mem)
  then have ne: "?rs \<noteq> []"
    by auto
  have io: "fst r = AfterIO" if "r \<in> set ?rs" for r
  proof -
    have "Inl r \<in> set (map (cluster_state p) cs)"
      using that by (simp add: rejections_mem)
    then obtain c' where "Inl r = cluster_state p c'"
      by auto
    then show ?thesis using cluster_state_moment [of p c' "fst r" "snd r"] by simp
  qed
  have "getCurrentState p cs = Inl (AfterIO, concat (map snd ?rs))"
    unfolding getCurrentState_def using ne io by (rule promise_all_AfterIO)
  moreover have "set es0 \<subseteq> set (concat (map snd ?rs))"
    using m by force
  ultimately show ?thesis by simp
qed

lemma incomplete_describeAllServices:
  "describeAllServices env_incomplete cluster_main =
     Inr [\<lparr>serviceArn = Some service_web, clusterArn = Some cluster_main,
            desiredCount = Some 3\<rparr>,
          \<lparr>serviceArn = Some service_api, clusterArn = Some cluster_main,
            desiredCount = None\<rparr>]"
  by (simp add: describeAllServices_def listServices_def env_incomplete_def chunk_pair)

lemma incomplete_listClusters: "listClusters env_incomplete = Inr [cluster_main]"
  by (simp add: listClusters_def env_incomplete_def)

lemma incomplete_web_state:
  "service_state env_incomplete
     \<lparr>serviceArn = Some service_web, clusterArn = Some cluster_main, desiredCount = Some 3\<rparr> =
   Inr \<lparr>service_arn = service_web, desired = 3, scalableTargets = Some []\<rparr>"
  by (simp add: service_state_def describeAllScalableTargets_def env_incomplete_def
      cluster_main_not_Nil service_web_not_Nil)

lemma racing_web_state:
  "service_state env_racing
     \<lparr>serviceArn = Some service_web, clusterArn = Some cluster_main, desiredCount = Some 3\<rparr> =
   Inl (AfterIO, [Rejected (DescribeScalableTargets ''service/main/web'')])"
  by (simp add: service_state_def describeAllScalableTargets_def env_racing_def
      cluster_main_not_Nil service_web_not_Nil resource_id_main_web)

lemma api_state:
  "service_state p
     \<lparr>serviceArn = Some service_api, clusterArn = Some cluster_main, desiredCount = None\<rparr> =
   Inl (AtOnce, [Error ''Unexpected error: desiredCount is missing for ECS service''])"
  by (simp add: service_state_def)

lemma racing_conserve:
  "conserve env_racing [] False =
     Inl [Error ''Unexpected error: desiredCount is missing for ECS service'']"
proof -
  have l: "listClusters env_racing = Inr [cluster_main]"
    by (simp add: listClusters_def env_racing_def env_incomplete_def)
  have d: "describeAllServices env_racing cluster_main =
     Inr [\<lparr>serviceArn = Some service_web, clusterArn = Some cluster_main,
            desiredCount = Some 3\<rparr>,
          \<lparr>serviceArn = Some service_api, clusterArn = Some cluster_main,
            desiredCount = None\<rparr>]"
    by (simp add: describeAllServices_def listServices_def env_racing_def
        env_incomplete_def chunk_pair)
  show ?thesis
    by (simp add: conserve_def l getCurrentState_def cluster_state_def d racing_web_state
        api_state promise_all_def)
qed

text \<open>
  C4, as the claim states it, fails: with two services on one cluster, the description of
  the second lacking \<open>desiredCount\<close>, \<open>conserve\<close> is rejected with the error of that
  service and returns no State, so no entry for the first service either.
\<close>

theorem missing_field_counterexample:
  "conserve env_incomplete [] False =
     Inl [Error ''Unexpected error: desiredCount is missing for ECS service'']"
  by (simp add: conserve_def incomplete_listClusters getCurrentState_def cluster_state_def
      incomplete_describeAllServices incomplete_web_state api_state promise_all_def)

text \<open>
  C4, amended. When \<open>serviceArn\<close> or \<open>desiredCount\<close> is absent from the description of
  one service of one listed cluster, the failure is not local to that service:
  \<open>conserve\<close> as a whole is rejected, so it returns no State and adds no node, for any
  service. A missing-field error is among the reasons with which it can be rejected,
  and is the reason when that cluster is the only one listed; with more clusters, a
  failure of the discovery of another cluster can come first.
\<close>

theorem missing_field_rejects_conserve:
  assumes "listClusters p = Inr cs" and "c \<in> set cs"
    and "describeAllServices p c = Inr svcs" and "svc \<in> set svcs"
    and "serviceArn svc = None \<or> desiredCount svc = None"
  shows "\<exists>es. conserve p subListr dryRun = Inl es
           \<and> (\<exists>e \<in> set missing_field_errors. e \<in> set es \<and> (cs = [c] \<longrightarrow> es = [e]))"
proof -
  obtain e where e: "e \<in> set missing_field_errors"
    and c: "cluster_state p c = Inl (AfterIO, [e])"
    using cluster_state_missing [OF assms(3) assms(4) assms(5)] by blast
  let ?es = "concat (map snd (rejections (map (cluster_state p) cs)))"
  have g: "getCurrentState p cs = Inl (AfterIO, ?es)" and m: "e \<in> set ?es"
    using getCurrentState_rejected [OF assms(2) c] by auto
  have "conserve p subListr dryRun = Inl ?es"
    using assms(1) g by (simp add: conserve_def)
  moreover have "cs = [c] \<longrightarrow> ?es = [e]"
    using c by simp
  ultimately show ?thesis using e m by blast
qed

theorem missing_field_rejects_conserve_witness:
  "listClusters env_incomplete = Inr [cluster_main]
   \<and> desiredCount \<lparr>serviceArn = Some service_api, clusterArn = Some cluster_main,
                    desiredCount = None\<rparr> = None
   \<and> (\<exists>es. conserve env_incomplete [] True = Inl es
         \<and> (\<exists>e \<in> set missing_field_errors. es = [e]))
   \<and> conserve env_racing [] False =
       Inl [Error ''Unexpected error: desiredCount is missing for ECS service'']"
proof -
  have "\<exists>es. conserve env_incomplete [] True = Inl es
      \<and> (\<exists>e \<in> set missing_field_errors. e \<in> set es \<and>
            ([cluster_main] = [cluster_main] \<longrightarrow> es = [e]))"
    using missing_field_rejects_conserve
        [of env_incomplete "[cluster_main]" cluster_main
           "[\<lparr>serviceArn = Some service_web, clusterArn = Some cluster_main,
               desiredCount = Some 3\<rparr>,
             \<lparr>serviceArn = Some service_api, clusterArn = Some cluster_main,
               desiredCount = None\<rparr>]"
           "\<lparr>serviceArn = Some service_api, clusterArn = Some cluster_main,
              desiredCount = None\<rparr>" "[]" True]
      incomplete_listClusters incomplete_describeAllServices
    by simp
  then have "\<exists>es. conserve env_incomplete [] True = Inl es
      \<and> (\<exists>e \<in> set missing_field_errors. es = [e])"
    by auto
  then show ?thesis by (simp add: incomplete_listClusters racing_conserve)
qed

section \<open>The tags of the interface\<close>

lemma ok_conserve:
  "conserve env_ok [] False = Inr (state_3, [conserve_node env_ok False main_3 web_3])"
  using scenario_conserve [OF cluster_main_not_Nil service_web_not_Nil, of "[]" False]
  by (simp add: env_ok_def state_3_def main_3_def web_3_def)

text \<open>
  C5, as the claim states it, fails: called through the interface with the tag
  \<open>team = a\<close> and with the tag \<open>team = b\<close>, \<open>conserve\<close> records the same service in the
  same State and adds the same node; no criterion has selected anything.
\<close>

theorem tags_counterexample:
  "TrickInterface_conserve env_ok [] False [(''team'', ''a'')] =
     Inr (state_3, [conserve_node env_ok False main_3 web_3])
   \<and> TrickInterface_conserve env_ok [] False [(''team'', ''b'')] =
     Inr (state_3, [conserve_node env_ok False main_3 web_3])"
  by (simp add: TrickInterface_conserve_def ok_conserve)

text \<open>
  C5, amended. The interface declares a \<open>tags\<close> parameter for \<open>conserve\<close>, and this
  capability does not take it: for every tags value the result of \<open>conserve\<close> is the
  same, and a returned State records every service that \<open>describeAllServices\<close> returned
  for every listed cluster, no tag criterion being applied.
\<close>

theorem conserve_ignores_tags:
  "TrickInterface_conserve p subListr dryRun tags = conserve p subListr dryRun
   \<and> TrickInterface_conserve p subListr dryRun tags =
       TrickInterface_conserve p subListr dryRun tags'
   \<and> (TrickInterface_conserve p subListr dryRun tags = Inr (st, l) \<longrightarrow>
        listClusters p = Inr (map cluster_arn st) \<and>
        (\<forall>cl \<in> set st. \<exists>svcs. describeAllServices p (cluster_arn cl) = Inr svcs \<and>
           records (services cl) svcs))"
  using conserve_Inr_state [of p subListr dryRun st l]
  by (simp add: TrickInterface_conserve_def)

theorem conserve_ignores_tags_witness:
  "TrickInterface_conserve env_ok [] False [(''team'', ''a'')] = conserve env_ok [] False
   \<and> TrickInterface_conserve env_ok [] False [(''team'', ''a'')] =
       Inr (state_3, [conserve_node env_ok False main_3 web_3])
   \<and> listClusters env_ok = Inr (map cluster_arn state_3)
   \<and> map cluster_arn state_3 = [cluster_main]"
proof -
  have t: "TrickInterface_conserve env_ok [] False [(''team'', ''a'')] =
       Inr (state_3, [conserve_node env_ok False main_3 web_3])"
    by (simp add: TrickInterface_conserve_def ok_conserve)
  have m: "map cluster_arn state_3 = [cluster_main]"
    by (simp add: state_3_def scenario_state_def scenario_cluster_def)
  show ?thesis
    using conserve_ignores_tags [of env_ok "[]" False "[(''team'', ''a'')]"
        "[(''team'', ''b'')]" state_3 "[conserve_node env_ok False main_3 web_3]"] t
    by (simp add: m)
qed

section \<open>Restore: what it builds and sends\<close>

lemma sent_requests_Sent:
  "sent_requests (r\<lparr>trace := Sent q # trace r\<rparr>) = q # sent_requests r"
  by (simp add: sent_requests_def)

lemma sent_requests_Skip:
  "sent_requests (r\<lparr>trace := Skip m # trace r\<rparr>) = sent_requests r"
  by (simp add: sent_requests_def)

lemma built_requests_Sent:
  "built_requests (r\<lparr>trace := Sent q # trace r\<rparr>) = q # built_requests r"
  by (simp add: built_requests_def)

lemma built_requests_Skip:
  "built_requests (r\<lparr>trace := Skip m # trace r\<rparr>) = built_requests r"
  by (simp add: built_requests_def)



lemma restoreService_built:
  "built_requests (restoreService p dryRun cl sv) =
     (if \<not> dryRun \<and> desired sv > 0
      then UpdateService (cluster_arn cl) (service_arn sv) (desired sv) #
           (if accepts p (UpdateService (cluster_arn cl) (service_arn sv) (desired sv))
            then [WaitForServicesStable (cluster_arn cl) [service_arn sv]] else [])
      else [])"
  by (simp add: restoreService_def built_requests_def Let_def)

lemma restoreTargetsLoop_sent:
  "sent_requests (restoreTargetsLoop p dryRun cl sv sts) =
     (if dryRun then []
      else until_rejected (accepts p)
             (map (\<lambda>t. RegisterScalableTarget (namespace t)
                         (getEcsServiceResourceId (cluster_arn cl) (service_arn sv))
                         (scalableDimension t) (min_cap t) (max_cap t)) sts))"
proof (induction sts)
  case Nil
  show ?case by (simp add: sent_requests_def)
next
  case (Cons st sts)
  show ?case
  proof (cases dryRun)
    case True
    then show ?thesis using Cons by (simp add: Let_def sent_requests_Skip)
  next
    case False
    then show ?thesis using Cons
      by (simp add: Let_def sent_requests_Sent) (simp add: sent_requests_def)
  qed
qed

lemma restoreTargetsLoop_built:
  "built_requests (restoreTargetsLoop p dryRun cl sv sts) =
     sent_requests (restoreTargetsLoop p dryRun cl sv sts)"
proof (induction sts)
  case Nil
  show ?case by (simp add: sent_requests_def built_requests_def)
next
  case (Cons st sts)
  show ?case
  proof (cases dryRun)
    case True
    then show ?thesis using Cons
      by (simp add: Let_def sent_requests_Skip built_requests_Skip)
  next
    case False
    then show ?thesis using Cons
      by (simp add: Let_def sent_requests_Sent built_requests_Sent)
         (simp add: sent_requests_def built_requests_def)
  qed
qed

lemma restoreScalableTargets_sent:
  "sent_requests (restoreScalableTargets p dryRun cl sv) =
     (if dryRun then [] else until_rejected (accepts p) (restore_registers cl sv))"
proof (cases "no_targets (scalableTargets sv)")
  case True
  then have "or_empty (scalableTargets sv) = []"
    by (cases "scalableTargets sv") simp_all
  then show ?thesis using True
    by (simp add: restoreScalableTargets_def sent_requests_def restore_registers_def)
next
  case False
  then show ?thesis
    by (simp add: restoreScalableTargets_def restoreTargetsLoop_sent restore_registers_def)
qed

lemma restoreScalableTargets_built:
  "built_requests (restoreScalableTargets p dryRun cl sv) =
     sent_requests (restoreScalableTargets p dryRun cl sv)"
  by (cases "no_targets (scalableTargets sv)")
     (simp_all add: restoreScalableTargets_def restoreTargetsLoop_built,
      simp add: sent_requests_def built_requests_def)

lemma until_rejected_mutating:
  "(\<And>r. r \<in> set rs \<Longrightarrow> is_mutating r) \<Longrightarrow> r \<in> set (until_rejected acc rs) \<Longrightarrow> is_mutating r"
  by (induction rs) (auto split: if_splits)

lemma until_rejected_all: "(\<And>r. acc r) \<Longrightarrow> until_rejected acc rs = rs"
  by (induction rs) simp_all

lemma until_rejected_prefix: "prefix (until_rejected acc rs) rs"
  by (induction rs) simp_all

lemma restore_registers_mutating: "r \<in> set (restore_registers cl sv) \<Longrightarrow> is_mutating r"
  by (auto simp: restore_registers_def)



lemma built_not_discovery:
  assumes "r \<in> set (listr_built (for_each_service (restore_node p dryRun) st))"
  shows "\<not> is_discovery r"
proof -
  obtain n where n: "n \<in> set (for_each_service (restore_node p dryRun) st)"
    and r: "r \<in> set (concat (map (\<lambda>t. built_requests (run t)) (subtasks n)))"
    using assms by (auto simp: listr_built_def)
  obtain cl sv where "n = restore_node p dryRun cl sv"
    using for_each_service_set [OF n] by blast
  then have "r \<in> set (built_requests (restoreService p dryRun cl sv)) \<or>
      r \<in> set (built_requests (restoreScalableTargets p dryRun cl sv))"
    using r by (auto simp: restore_node_def)
  then show ?thesis
  proof
    assume "r \<in> set (built_requests (restoreService p dryRun cl sv))"
    then show ?thesis by (auto simp: restoreService_built split: if_splits)
  next
    assume "r \<in> set (built_requests (restoreScalableTargets p dryRun cl sv))"
    then have "r \<in> set (until_rejected (accepts p) (restore_registers cl sv))"
      by (simp add: restoreScalableTargets_built restoreScalableTargets_sent
          split: if_splits)
    then have "is_mutating r"
      using until_rejected_mutating restore_registers_mutating by blast
    then show ?thesis by (cases r) simp_all
  qed
qed

lemma restoreTargetsLoop_accepts:
  "accepts p = accepts q \<Longrightarrow>
   restoreTargetsLoop p dryRun cl sv sts = restoreTargetsLoop q dryRun cl sv sts"
  by (induction sts) (auto simp: Let_def)

lemma restore_node_accepts:
  "accepts p = accepts q \<Longrightarrow> restore_node p dryRun cl sv = restore_node q dryRun cl sv"
  by (simp add: restore_node_def restoreService_def restoreScalableTargets_def
      restoreTargetsLoop_accepts [of p q])

lemma restore_accepts:
  assumes "accepts p = accepts q"
  shows "restore p subListr dryRun st = restore q subListr dryRun st"
proof -
  have "restore_node p dryRun = restore_node q dryRun"
    using restore_node_accepts [OF assms] by (intro ext)
  then show ?thesis by (simp add: restore_def)
qed









section \<open>Restore: no discovery, and the part of the provider\<close>

lemma env_down_rejects: "\<not> accepts env_down r"
  by (simp add: env_down_def)

lemma two_targets_restore:
  "restore p [] False state_two_targets = [restore_node p False main_two web_two]"
  by (simp add: restore_def for_each_service_def state_two_targets_def main_two_def)

lemma registers_two:
  "restore_registers main_two web_two =
     [RegisterScalableTarget ''ecs'' ''service/main/web'' ''ecs:service:DesiredCount'' 1 10,
      RegisterScalableTarget ''ecs'' ''service/main/web'' ''ecs:service:TaskCount'' 2 4]"
  by (simp add: restore_registers_def web_two_def main_two_def target_1_10_def
      target_2_4_def scenario_target_def resource_id_main_web)

lemma web_two_update:
  "sent_requests (restoreService p False main_two web_two) =
     [UpdateService cluster_main service_web 3]"
  by (simp add: restoreService_def sent_requests_def Let_def web_two_def main_two_def)

text \<open>
  C6, as the claim states it, fails in its last part: for a State whose service has two
  scalable targets, \<open>restore\<close> sends both \<open>registerScalableTarget\<close> requests when the
  provider accepts them, and the first one only when the provider rejects it; the same
  State and the same \<open>dryRun\<close> give two different sequences of calls.
\<close>

theorem restore_calls_counterexample:
  "listr_requests (restore env_ok [] False state_two_targets) =
     [UpdateService cluster_main service_web 3,
      RegisterScalableTarget ''ecs'' ''service/main/web'' ''ecs:service:DesiredCount'' 1 10,
      RegisterScalableTarget ''ecs'' ''service/main/web'' ''ecs:service:TaskCount'' 2 4]
   \<and> listr_requests (restore env_down [] False state_two_targets) =
     [UpdateService cluster_main service_web 3,
      RegisterScalableTarget ''ecs'' ''service/main/web'' ''ecs:service:DesiredCount'' 1 10]"
  by (simp add: two_targets_restore listr_requests_def node_requests_def restore_node_def
      web_two_update restoreScalableTargets_sent registers_two env_ok_accepts
      env_down_rejects)

text \<open>
  C6, amended. \<open>restore\<close> is self-contained: for every captured State, none of the
  requests of its tasks is a list or describe request. Every request (update of the
  desired count, wait for stability, registration of a scalable target) has its
  parameters from the State, and the nodes depend on the provider only through its
  acceptance of the requests sent: two providers that accept the same requests give the
  same nodes, whatever they answer to discovery. The same State and the same \<open>dryRun\<close>
  give the same sequence of requests whenever the provider accepts every request; a
  rejected request ends its task, so the requests of a task are an initial part of that
  sequence.
\<close>

theorem restore_self_contained:
  "(\<forall>r \<in> set (listr_built (for_each_service (restore_node p dryRun) st)).
      \<not> is_discovery r)
   \<and> restore p subListr dryRun st = subListr @ for_each_service (restore_node p dryRun) st
   \<and> (accepts p = accepts q \<longrightarrow>
        restore p subListr dryRun st = restore q subListr dryRun st)
   \<and> ((\<forall>r. accepts q r) \<longrightarrow>
        built_requests (restoreService q dryRun cl sv) =
          (if \<not> dryRun \<and> desired sv > 0
           then [UpdateService (cluster_arn cl) (service_arn sv) (desired sv),
                 WaitForServicesStable (cluster_arn cl) [service_arn sv]]
           else [])
        \<and> built_requests (restoreScalableTargets q dryRun cl sv) =
            (if dryRun then [] else restore_registers cl sv)
        \<and> prefix (built_requests (restoreService p dryRun cl sv))
            (built_requests (restoreService q dryRun cl sv))
        \<and> prefix (built_requests (restoreScalableTargets p dryRun cl sv))
            (built_requests (restoreScalableTargets q dryRun cl sv)))"
proof -
  have a: "\<forall>r \<in> set (listr_built (for_each_service (restore_node p dryRun) st)).
      \<not> is_discovery r"
    using built_not_discovery by blast
  have b: "accepts p = accepts q \<longrightarrow>
      restore p subListr dryRun st = restore q subListr dryRun st"
    using restore_accepts by blast
  have c: "built_requests (restoreService q dryRun cl sv) =
          (if \<not> dryRun \<and> desired sv > 0
           then [UpdateService (cluster_arn cl) (service_arn sv) (desired sv),
                 WaitForServicesStable (cluster_arn cl) [service_arn sv]]
           else [])
        \<and> built_requests (restoreScalableTargets q dryRun cl sv) =
            (if dryRun then [] else restore_registers cl sv)
        \<and> prefix (built_requests (restoreService p dryRun cl sv))
            (built_requests (restoreService q dryRun cl sv))
        \<and> prefix (built_requests (restoreScalableTargets p dryRun cl sv))
            (built_requests (restoreScalableTargets q dryRun cl sv))"
    if q: "\<forall>r. accepts q r"
  proof -
    have u: "until_rejected (accepts q) rs = rs" for rs
      using q by (simp add: until_rejected_all)
    show ?thesis
      using q until_rejected_prefix [of "accepts p" "restore_registers cl sv"]
      by (simp add: restoreService_built restoreScalableTargets_built
          restoreScalableTargets_sent u)
  qed
  have d: "restore p subListr dryRun st =
      subListr @ for_each_service (restore_node p dryRun) st"
    by (simp add: restore_def)
  from a b c d show ?thesis by blast
qed

theorem restore_self_contained_witness:
  "restore (env_ok\<lparr>listClusters_reply := Rejects\<rparr>) [] False state_two_targets =
     restore env_ok [] False state_two_targets
   \<and> built_requests (restoreService env_ok False main_two web_two) =
       [UpdateService cluster_main service_web 3,
        WaitForServicesStable cluster_main [service_web]]
   \<and> built_requests (restoreScalableTargets env_ok False main_two web_two) =
       [RegisterScalableTarget ''ecs'' ''service/main/web'' ''ecs:service:DesiredCount'' 1 10,
        RegisterScalableTarget ''ecs'' ''service/main/web'' ''ecs:service:TaskCount'' 2 4]
   \<and> built_requests (restoreScalableTargets env_down False main_two web_two) =
       [RegisterScalableTarget ''ecs'' ''service/main/web'' ''ecs:service:DesiredCount'' 1 10]
   \<and> prefix (built_requests (restoreScalableTargets env_down False main_two web_two))
       (built_requests (restoreScalableTargets env_ok False main_two web_two))"
proof -
  have e: "accepts (env_ok\<lparr>listClusters_reply := Rejects\<rparr>) = accepts env_ok"
    by simp
  have q: "\<forall>r. accepts env_ok r"
    by (simp add: env_ok_accepts)
  have m: "cluster_arn main_two = cluster_main" "service_arn web_two = service_web"
    "desired web_two = 3"
    by (simp_all add: main_two_def web_two_def)
  have r: "restore (env_ok\<lparr>listClusters_reply := Rejects\<rparr>) [] False state_two_targets =
       restore env_ok [] False state_two_targets"
    using restore_self_contained [of "env_ok\<lparr>listClusters_reply := Rejects\<rparr>" False
        state_two_targets "[]" env_ok main_two web_two] e
    by blast
  have b: "built_requests (restoreService env_ok False main_two web_two) =
       [UpdateService cluster_main service_web 3,
        WaitForServicesStable cluster_main [service_web]]"
    using restore_self_contained [of env_down False state_two_targets "[]" env_ok
        main_two web_two] q
    by (simp add: m)
  have g: "built_requests (restoreScalableTargets env_ok False main_two web_two) =
       [RegisterScalableTarget ''ecs'' ''service/main/web'' ''ecs:service:DesiredCount'' 1 10,
        RegisterScalableTarget ''ecs'' ''service/main/web'' ''ecs:service:TaskCount'' 2 4]"
    using restore_self_contained [of env_down False state_two_targets "[]" env_ok
        main_two web_two] q
    by (simp add: registers_two)
  have d: "built_requests (restoreScalableTargets env_down False main_two web_two) =
       [RegisterScalableTarget ''ecs'' ''service/main/web'' ''ecs:service:DesiredCount'' 1 10]"
    by (simp add: restoreScalableTargets_built restoreScalableTargets_sent registers_two
        env_down_rejects)
  show ?thesis using r b g d by simp
qed

end
